theory Spec2Isabelle
  imports Main "HOL-Library.Signed_Division"
begin

section \<open>TaskBuildIndex: the coordinator of the indexer workers\<close>

text \<open>
  This theory embeds \<^verbatim>\<open>src/lib/data/indexer/TaskBuildIndex.cpp\<close>. Each member
  function of \<^verbatim>\<open>TaskBuildIndex\<close> becomes a function on a record that holds the
  fields of the task together with the collaborators it talks to (blackboard, shared
  memory, storage provider, dialog view, clock). Calls whose only effect is a log line
  (\<^verbatim>\<open>LOG_INFO\<close>, \<^verbatim>\<open>LOG_ERROR\<close>, \<^verbatim>\<open>LOG_INFO_STREAM\<close>) are left out.

  The model is sequential. A call of a member function is not interleaved with the
  steps of other threads, so the mutexes are left out; what the other threads and the
  spawned processes do shows up as the state a call starts from and, where the code
  waits for them, as an input of the model: the exit codes of the spawned processes,
  the interrupt requests that arrive while they run, and the readings of the clock.

  The type \<^verbatim>\<open>int\<close> of the source has 32 bits. Its values are integers here, and
  every sum and product of the source on \<^verbatim>\<open>int\<close> is wrapped around at 32 bits
  (\<open>int32\<close>), as two's-complement hardware computes it; a division of \<open>INT_MIN\<close> by
  \<open>-1\<close> and a division by zero are faults. The counters of type
  \<^verbatim>\<open>size_t\<close> are natural numbers; the only decrement,
  \<^verbatim>\<open>m_runningThreadCount--\<close>, follows an increment by the same routine.
\<close>

subsection \<open>Data\<close>

type_synonym FilePath = string
type_synonym Id = nat

text \<open>
  The range of \<^verbatim>\<open>int\<close>, and the value that 32-bit two's-complement arithmetic
  keeps of an integer.
\<close>

definition INT_MIN :: int where
  "INT_MIN = - 2147483648"

definition INT_MAX :: int where
  "INT_MAX = 2147483647"

definition int32 :: "int \<Rightarrow> int" where
  "int32 x = (x + 2147483648) mod 4294967296 - 2147483648"

text \<open>
  Modelled from the spec: \<^verbatim>\<open>StorageErrorData\<close> is declared outside this file. The
  fields are listed in the order of the constructor call in \<^verbatim>\<open>doExit\<close>: an error
  record has a message, an associated source path, line and column markers and a
  fatal flag.
\<close>

record StorageErrorData =
  message :: string
  filePath :: string
  lineNumber :: nat
  columnNumber :: nat
  translationUnit :: string
  fatal :: bool
  indexed :: bool

text \<open>
  Modelled from the spec: \<^verbatim>\<open>IntermediateStorage\<close> is an opaque container of
  accumulated output plus zero or more error records.
\<close>

record IntermediateStorage =
  storageData :: "string list"
  errors :: "StorageErrorData list"

definition newIntermediateStorage :: IntermediateStorage where
  "newIntermediateStorage = \<lparr>storageData = [], errors = []\<rparr>"

definition addError :: "StorageErrorData \<Rightarrow> IntermediateStorage \<Rightarrow> IntermediateStorage" where
  "addError e s = s\<lparr>errors := errors s @ [e]\<rparr>"

text \<open>
  Modelled from the spec: the blackboard is a generic key/value store. \<^verbatim>\<open>get\<close> writes
  the stored value into its reference argument when the key holds a value of the asked
  type and leaves the argument as it was otherwise.
\<close>

datatype BlackboardItem = IntItem int | BoolItem bool

type_synonym Blackboard = "string \<rightharpoonup> BlackboardItem"

definition blackboard_get_int :: "Blackboard \<Rightarrow> string \<Rightarrow> int \<Rightarrow> int" where
  "blackboard_get_int b key dflt = (case b key of Some (IntItem v) \<Rightarrow> v | _ \<Rightarrow> dflt)"

definition blackboard_set :: "Blackboard \<Rightarrow> string \<Rightarrow> BlackboardItem \<Rightarrow> Blackboard" where
  "blackboard_set b key v = b(key \<mapsto> v)"

datatype TaskState = STATE_RUNNING | STATE_FAILURE

text \<open>A thread handle: the routine the thread runs, with its arguments.\<close>

datatype WorkerThread =
    RunIndexerProcess nat string
  | RunIndexerThread nat

datatype Message = MessageIndexingStatus bool int

text \<open>
  The shared memory behind \<^verbatim>\<open>InterprocessIndexerCommandManager\<close>,
  \<^verbatim>\<open>InterprocessIndexingStatusManager\<close> and the
  \<^verbatim>\<open>InterprocessIntermediateStorageManager\<close>s. The storage queues are keyed by
  process id, so two handles with the same process id share one queue.
\<close>

record SharedMemory =
  indexerCommands :: "string list"
  currentlyIndexedSourceFilePaths :: "FilePath list"
  finishedProcessIds :: "Id list"
  crashedSourceFilePaths :: "FilePath list"
  intermediateStorages :: "nat \<Rightarrow> IntermediateStorage list"

record World =
  m_appUUID :: string
  m_multiProcessIndexing :: bool
  m_processCount :: nat
  m_interrupted :: bool
  m_lastCommandCount :: nat
  m_indexingFileCount :: nat
  m_runningThreadCount :: nat
  m_processThreads :: "WorkerThread list"
  m_interprocessIntermediateStorageManagers :: "nat list"
  shm :: SharedMemory
  blackboard :: Blackboard
  storageProvider :: "IntermediateStorage list"
  dialogsHidden :: bool
  dialogUpdates :: "(nat \<times> int \<times> int \<times> FilePath list) list"
  dispatched :: "Message list"
  joinedThreads :: "WorkerThread list"
  launchedProcesses :: "(string \<times> string list) list"
  clock :: "nat \<Rightarrow> int"
  clockReads :: nat
  slept :: "nat list"
  appPath :: FilePath
  userDataPath :: FilePath
  fileExists :: "FilePath \<Rightarrow> bool"
  processOutcome :: "nat \<Rightarrow> int \<times> bool"

subsection \<open>Interrupt handling\<close>

text \<open>\<^verbatim>\<open>TaskBuildIndex::handleMessage(MessageInterruptTasks*)\<close>, lines 173-179.\<close>

definition handleMessage :: "World \<Rightarrow> World" where
  "handleMessage w = (if \<not> dialogsHidden w then w\<lparr>m_interrupted := True\<rparr> else w)"

subsection \<open>The collaborators\<close>

text \<open>
  Modelled from the spec: the result sink (\<^verbatim>\<open>StorageProvider\<close>) accepts a bundle
  and exposes the current count of bundles it holds and has not merged yet. Merging is
  done by another task; within one call of the functions below the provider changes
  only by the inserts of this task.
\<close>

definition getStorageCount :: "World \<Rightarrow> int" where
  "getStorageCount w = int (length (storageProvider w))"

definition StorageProvider_insert :: "IntermediateStorage \<Rightarrow> World \<Rightarrow> World" where
  "StorageProvider_insert s w = w\<lparr>storageProvider := storageProvider w @ [s]\<rparr>"

text \<open>
  Modelled from the spec: the finished-signal is a FIFO of worker-slot ids, consumed one
  id at a time. The caller tests the returned id with \<^verbatim>\<open>!finishedProcessId\<close>, so
  an empty FIFO answers 0.
\<close>

definition getNextFinishedProcessId :: "World \<Rightarrow> Id \<times> World" where
  "getNextFinishedProcessId w =
     (case finishedProcessIds (shm w) of
        [] \<Rightarrow> (0, w)
      | p # ps \<Rightarrow> (p, w\<lparr>shm := (shm w)\<lparr>finishedProcessIds := ps\<rparr>\<rparr>))"

text \<open>
  Modelled from the spec: a result channel is a queue of bundles, drained in the order
  the worker flushed them. \<^verbatim>\<open>popIntermediateStorage\<close> is only called on a queue
  whose count was just found non-zero.
\<close>

definition getIntermediateStorageCount :: "nat \<Rightarrow> World \<Rightarrow> int" where
  "getIntermediateStorageCount pid w = int (length (intermediateStorages (shm w) pid))"

definition popIntermediateStorage :: "nat \<Rightarrow> World \<Rightarrow> IntermediateStorage \<times> World" where
  "popIntermediateStorage pid w =
     (let q = intermediateStorages (shm w) pid in
      (hd q, w\<lparr>shm := (shm w)\<lparr>intermediateStorages := (intermediateStorages (shm w))(pid := tl q)\<rparr>\<rparr>))"

text \<open>
  Modelled from the spec: the status channel is read for the paths in flight and for
  the accumulated crash records; the command manager reports and clears the work-item
  queue.
\<close>

definition getCurrentlyIndexedSourceFilePaths :: "World \<Rightarrow> FilePath list" where
  "getCurrentlyIndexedSourceFilePaths w = currentlyIndexedSourceFilePaths (shm w)"

definition getCrashedSourceFilePaths :: "World \<Rightarrow> FilePath list" where
  "getCrashedSourceFilePaths w = crashedSourceFilePaths (shm w)"

definition indexerCommandCount :: "World \<Rightarrow> nat" where
  "indexerCommandCount w = length (indexerCommands (shm w))"

definition clearIndexerCommands :: "World \<Rightarrow> World" where
  "clearIndexerCommands w = w\<lparr>shm := (shm w)\<lparr>indexerCommands := []\<rparr>\<rparr>"

text \<open>
  The wall clock is an input: \<open>clock w k\<close> is the reading, in milliseconds, of the
  \<open>k\<close>-th call of \<^verbatim>\<open>TimeStamp::now()\<close>. \<^verbatim>\<open>deltaMS\<close> is the distance between
  two readings. \<^verbatim>\<open>sleep_for\<close> is recorded with its duration.
\<close>

definition TimeStamp_now :: "World \<Rightarrow> int \<times> World" where
  "TimeStamp_now w = (clock w (clockReads w), w\<lparr>clockReads := Suc (clockReads w)\<rparr>)"

definition deltaMS :: "int \<Rightarrow> int \<Rightarrow> nat" where
  "deltaMS a b = nat \<bar>a - b\<bar>"

definition sleep_for :: "nat \<Rightarrow> World \<Rightarrow> World" where
  "sleep_for ms w = w\<lparr>slept := slept w @ [ms]\<rparr>"

subsection \<open>Draining the result channels\<close>

text \<open>
  The \<^verbatim>\<open>do ... while\<close> loop of \<^verbatim>\<open>fetchIntermediateStorages\<close>, lines 253-275.
  \<open>t\<close> is the time stamp taken before the loop. Every iteration that does not leave the
  loop has consumed one id of the finished-signal.
\<close>

function fetchLoop :: "int \<Rightarrow> World \<Rightarrow> int \<Rightarrow> World \<times> int" where
  "fetchLoop t w poppedStorageCount =
     (let (finishedProcessId, w1) = getNextFinishedProcessId w in
      if finishedProcessId = 0
         \<or> finishedProcessId > length (m_interprocessIntermediateStorageManagers w1)
      then (w1, poppedStorageCount)
      else
        let storageManager = m_interprocessIntermediateStorageManagers w1 ! (finishedProcessId - 1);
            storageCount = getIntermediateStorageCount storageManager w1 in
        if storageCount = 0 then (w1, poppedStorageCount)
        else
          let (s, w2) = popIntermediateStorage storageManager w1;
              w3 = StorageProvider_insert s w2;
              poppedStorageCount' = int32 (poppedStorageCount + 1);
              (now, w4) = TimeStamp_now w3 in
          if deltaMS now t < 500 then fetchLoop t w4 poppedStorageCount'
          else (w4, poppedStorageCount'))"
  by pat_completeness auto
termination
  by (relation "measure (\<lambda>(t, w, k). length (finishedProcessIds (shm w)))")
    (auto simp: getNextFinishedProcessId_def popIntermediateStorage_def
      StorageProvider_insert_def TimeStamp_now_def Let_def split: list.splits)

declare fetchLoop.simps [simp del]

text \<open>\<^verbatim>\<open>TaskBuildIndex::fetchIntermediateStorages\<close>, lines 238-288.\<close>

definition fetchIntermediateStorages :: "World \<Rightarrow> World \<times> bool" where
  "fetchIntermediateStorages w =
     (let poppedStorageCount = 0;
          providerStorageCount = getStorageCount w in
      if providerStorageCount > 10 then (sleep_for 100 w, True)
      else
        let (t, w1) = TimeStamp_now w;
            (w2, poppedStorageCount) = fetchLoop t w1 poppedStorageCount in
        if poppedStorageCount > 0 then
          (let indexedSourceFileCount =
                 blackboard_get_int (blackboard w2) ''indexed_source_file_count'' 0 in
           (w2\<lparr>blackboard := blackboard_set (blackboard w2) ''indexed_source_file_count''
                   (IntItem (int32 (indexedSourceFileCount + poppedStorageCount)))\<rparr>, True))
        else (w2, False))"

subsection \<open>Progress updates\<close>

text \<open>
  The division of C++ on \<^verbatim>\<open>int\<close> truncates towards zero (\<open>sdiv\<close>). A zero
  divisor is undefined behaviour, and so is the quotient of \<open>INT_MIN\<close> by \<open>-1\<close>, which
  does not fit into 32 bits; the division instruction traps on both. Both are faults of
  the model.
\<close>

datatype Fault = DivisionByZero | DivisionOverflow

definition int_divide :: "int \<Rightarrow> int \<Rightarrow> Fault + int" where
  "int_divide a b =
     (if b = 0 then Inl DivisionByZero
      else if a = INT_MIN \<and> b = - 1 then Inl DivisionOverflow
      else Inr (a sdiv b))"

text \<open>The progress percentage, lines 306-310 of \<^verbatim>\<open>updateIndexingDialog\<close>.\<close>

definition indexingProgress :: "int \<Rightarrow> int \<Rightarrow> Fault + int" where
  "indexingProgress indexedSourceFileCount sourceFileCount =
     (if sourceFileCount \<noteq> 0
      then int_divide (int32 (indexedSourceFileCount * 100)) sourceFileCount
      else Inr 0)"

text \<open>\<^verbatim>\<open>TaskBuildIndex::updateIndexingDialog\<close>, lines 290-312.\<close>

definition updateIndexingDialog :: "FilePath list \<Rightarrow> World \<Rightarrow> Fault + World" where
  "updateIndexingDialog sourcePaths w =
     (let sourceFileCount = blackboard_get_int (blackboard w) ''source_file_count'' 0;
          indexedSourceFileCount =
            blackboard_get_int (blackboard w) ''indexed_source_file_count'' 0;
          w1 = w\<lparr>m_indexingFileCount := m_indexingFileCount w + length sourcePaths\<rparr>;
          w2 = w1\<lparr>dialogUpdates := dialogUpdates w1 @
                 [(m_indexingFileCount w1, indexedSourceFileCount, sourceFileCount, sourcePaths)]\<rparr>
      in case indexingProgress indexedSourceFileCount sourceFileCount of
           Inl f \<Rightarrow> Inl f
         | Inr progress \<Rightarrow>
             Inr (w2\<lparr>dispatched := dispatched w2 @ [MessageIndexingStatus True progress]\<rparr>))"

subsection \<open>The update tick\<close>

text \<open>\<^verbatim>\<open>TaskBuildIndex::doUpdate\<close>, lines 87-130.\<close>

definition doUpdate :: "World \<Rightarrow> Fault + World \<times> TaskState" where
  "doUpdate w =
     (let runningThreadCount = m_runningThreadCount w;
          commandCount = indexerCommandCount w
      in case
           (if commandCount \<noteq> m_lastCommandCount w then
              (let indexingFiles = getCurrentlyIndexedSourceFilePaths w in
               case (if indexingFiles \<noteq> [] then updateIndexingDialog indexingFiles w
                     else Inr w) of
                 Inl f \<Rightarrow> Inl f
               | Inr w' \<Rightarrow> Inr (w'\<lparr>m_lastCommandCount := commandCount\<rparr>))
            else Inr w) of
           Inl f \<Rightarrow> Inl f
         | Inr w1 \<Rightarrow>
             if commandCount = 0 \<and> runningThreadCount = 0 then Inr (w1, STATE_FAILURE)
             else if m_interrupted w1 then
               (let w2 = w1\<lparr>blackboard :=
                           blackboard_set (blackboard w1) ''interrupted_indexing'' (BoolItem True)\<rparr>;
                    w3 = clearIndexerCommands w2
                in Inr (w3, STATE_FAILURE))
             else
               (let (w2, fetched) = fetchIntermediateStorages w1 in
                case (if fetched then updateIndexingDialog [] w2 else Inr w2) of
                  Inl f \<Rightarrow> Inl f
                | Inr w3 \<Rightarrow> Inr (sleep_for 50 w3, STATE_RUNNING)))"

subsection \<open>Leaving the task\<close>

text \<open>
  Joining a thread returns once its routine has returned; the handle is recorded as
  joined. Lines 134-139 of \<^verbatim>\<open>doExit\<close>.
\<close>

definition joinThreads :: "World \<Rightarrow> World" where
  "joinThreads w =
     (foldl (\<lambda>w' processThread. w'\<lparr>joinedThreads := joinedThreads w' @ [processThread]\<rparr>)
        w (m_processThreads w))\<lparr>m_processThreads := []\<rparr>"

text \<open>
  \<^verbatim>\<open>while (fetchIntermediateStorages(blackboard));\<close>, line 141. The loop need not
  end: it spins for as long as the storage provider stays above the threshold.
\<close>

partial_function (option) fetchAll :: "World \<Rightarrow> World option" where
  "fetchAll w =
     (let (w', fetched) = fetchIntermediateStorages w in
      if fetched then fetchAll w' else Some w')"

declare fetchAll.simps [code]

text \<open>The error record built for one crashed path, lines 149-153.\<close>

definition crashedFileError :: "FilePath \<Rightarrow> StorageErrorData" where
  "crashedFileError path =
     \<lparr>message = ''The translation unit threw an exception during indexing. Please check if the source file conforms to the specified language standard and all necessary options are defined within your project setup.'',
      filePath = path, lineNumber = 1, columnNumber = 1, translationUnit = path,
      fatal = True, indexed = True\<rparr>"

text \<open>Lines 143-157 of \<^verbatim>\<open>doExit\<close>.\<close>

definition reportCrashedFiles :: "World \<Rightarrow> World" where
  "reportCrashedFiles w =
     (let crashedFiles = getCrashedSourceFilePaths w in
      if crashedFiles \<noteq> [] then
        (let is = foldl (\<lambda>is path. addError (crashedFileError path) is)
                    newIntermediateStorage crashedFiles
         in StorageProvider_insert is w)
      else w)"

text \<open>\<^verbatim>\<open>TaskBuildIndex::doExit\<close>, lines 132-161.\<close>

definition doExit :: "World \<Rightarrow> World option" where
  "doExit w =
     (case fetchAll (joinThreads w) of
        None \<Rightarrow> None
      | Some w1 \<Rightarrow>
          (let w2 = reportCrashedFiles w1
           in Some (w2\<lparr>blackboard := blackboard_set (blackboard w2) ''indexer_count'' (IntItem 0)\<rparr>)))"

subsection \<open>The worker routines\<close>

text \<open>The name of the indexer executable on the platforms other than Windows.\<close>

definition s_processName :: string where
  "s_processName = ''sourcetrail_indexer''"

fun to_wstring :: "nat \<Rightarrow> string" where
  "to_wstring n =
     (if n < 10 then [char_of (48 + n)]
      else to_wstring (n div 10) @ [char_of (48 + n mod 10)])"

declare to_wstring.simps [simp del]

text \<open>
  \<^verbatim>\<open>utility::executeProcessAndGetExitCode\<close> blocks until the spawned process has
  exited. The exit code is an input: \<open>processOutcome w k\<close> is the exit code of the
  \<open>k\<close>-th process launched, together with whether an interrupt was requested by another
  thread while that process ran.
\<close>

definition executeProcessAndGetExitCode :: "string \<Rightarrow> string list \<Rightarrow> World \<Rightarrow> int \<times> World" where
  "executeProcessAndGetExitCode commandPath commandArguments w =
     (let outcome = processOutcome w (length (launchedProcesses w)) in
      (fst outcome,
       w\<lparr>launchedProcesses := launchedProcesses w @ [(commandPath, commandArguments)],
         m_interrupted := (m_interrupted w \<or> snd outcome)\<rparr>))"

text \<open>The relaunch loop, lines 208-214 of \<^verbatim>\<open>runIndexerProcess\<close>.\<close>

partial_function (option) relaunchLoop ::
  "string \<Rightarrow> string list \<Rightarrow> int \<Rightarrow> World \<Rightarrow> (int \<times> World) option" where
  "relaunchLoop commandPath commandArguments result w =
     (if result \<noteq> 0 \<and> \<not> m_interrupted w then
        (let (result', w') = executeProcessAndGetExitCode commandPath commandArguments w
         in relaunchLoop commandPath commandArguments result' w')
      else Some (result, w))"

declare relaunchLoop.simps [code]

definition quoted :: "string \<Rightarrow> string" where
  "quoted s = ''\"'' @ s @ ''\"''"

text \<open>
  \<^verbatim>\<open>TaskBuildIndex::runIndexerProcess\<close>, lines 181-220. Paths are strings:
  \<^verbatim>\<open>concatenate\<close> appends, and the application path and the user data path are
  taken to be absolute already. \<open>None\<close> means that the routine does not return.
\<close>

definition runIndexerProcess :: "nat \<Rightarrow> string \<Rightarrow> World \<Rightarrow> World option" where
  "runIndexerProcess processId logFilePath w =
     (let w1 = w\<lparr>m_runningThreadCount := m_runningThreadCount w + 1\<rparr>;
          indexerProcessPath = appPath w1 @ s_processName
      in if \<not> fileExists w1 indexerProcessPath then Some (w1\<lparr>m_interrupted := True\<rparr>)
         else
           (let commandPath = quoted indexerProcessPath;
                commandArguments =
                  [to_wstring processId, m_appUUID w1, quoted (appPath w1),
                   quoted (userDataPath w1)]
                  @ (if logFilePath \<noteq> [] then [quoted logFilePath] else [])
            in case relaunchLoop commandPath commandArguments 1 w1 of
                 None \<Rightarrow> None
               | Some (result, w2) \<Rightarrow>
                   Some (w2\<lparr>m_runningThreadCount := m_runningThreadCount w2 - 1\<rparr>)))"

text \<open>
  \<^verbatim>\<open>TaskBuildIndex::runIndexerThread\<close>, lines 222-236. \<open>work\<close> is
  \<^verbatim>\<open>InterprocessIndexer::work\<close>, which is built from the application id and the
  process id only and reaches nothing but the shared memory.
\<close>

definition runIndexerThread ::
  "(nat \<Rightarrow> SharedMemory \<Rightarrow> SharedMemory) \<Rightarrow> nat \<Rightarrow> World \<Rightarrow> World" where
  "runIndexerThread work processId w =
     (let w1 = w\<lparr>m_runningThreadCount := m_runningThreadCount w + 1\<rparr>;
          w2 = w1\<lparr>shm := work processId (shm w1)\<rparr>
      in w2\<lparr>m_runningThreadCount := m_runningThreadCount w2 - 1\<rparr>)"

subsection \<open>The drain step as the specification words it\<close>

text \<open>
  \<open>drainSpec\<close> follows the words of the specification (section 4.3, steps 2 and 3), not
  the source: pop the next ready slot id from the finished-signal; if none is ready,
  stop. If the slot id does not map to an existing worker slot, stop. If that slot's
  result channel holds zero bundles, stop. Otherwise pop exactly one bundle from that
  slot's result channel, hand it to the result sink and count it; repeat unless the
  time budget has elapsed. \<open>inBudget i\<close> tells whether the budget has not yet elapsed
  after the \<open>i\<close>-th bundle (counted from 0) was handed over. The result is what is left
  of the finished-signal, the channels, the sink and the number of bundles popped.
\<close>

fun drainSpec ::
  "nat list \<Rightarrow> (nat \<Rightarrow> bool) \<Rightarrow> Id list \<Rightarrow> (nat \<Rightarrow> IntermediateStorage list)
     \<Rightarrow> IntermediateStorage list
     \<Rightarrow> Id list \<times> (nat \<Rightarrow> IntermediateStorage list) \<times> IntermediateStorage list \<times> nat" where
  "drainSpec slots inBudget [] channel sink = ([], channel, sink, 0)"
| "drainSpec slots inBudget (slotId # signal) channel sink =
     (if slotId = 0 \<or> length slots < slotId then (signal, channel, sink, 0)
      else
        (case channel (slots ! (slotId - 1)) of
           [] \<Rightarrow> (signal, channel, sink, 0)
         | b # bs \<Rightarrow>
             (let channel' = channel(slots ! (slotId - 1) := bs);
                  sink' = sink @ [b]
              in if inBudget 0 then
                   (case drainSpec slots (\<lambda>i. inBudget (Suc i)) signal channel' sink' of
                      (signal', channel'', sink'', k) \<Rightarrow> (signal', channel'', sink'', Suc k))
                 else (signal, channel', sink', 1))))"

text \<open>The state after \<open>n\<close> calls of the drain step in a row.\<close>

fun fetchTimes :: "nat \<Rightarrow> World \<Rightarrow> World" where
  "fetchTimes 0 w = w"
| "fetchTimes (Suc n) w = fetchTimes n (fst (fetchIntermediateStorages w))"

text \<open>
  \<open>crashedUntil w n\<close>: counted from the next launch, the first \<open>n\<close> runs of the spawned
  process end with a non-zero exit code while no interrupt is requested, and the run
  after them ends with exit code 0 or with an interrupt requested.
\<close>

definition crashedUntil :: "World \<Rightarrow> nat \<Rightarrow> bool" where
  "crashedUntil w n \<longleftrightarrow>
     (\<forall>j<n. fst (processOutcome w (length (launchedProcesses w) + j)) \<noteq> 0
           \<and> \<not> snd (processOutcome w (length (launchedProcesses w) + j)))
     \<and> (fst (processOutcome w (length (launchedProcesses w) + n)) = 0
        \<or> snd (processOutcome w (length (launchedProcesses w) + n)))"

subsection \<open>A concrete task\<close>

text \<open>
  A task with two worker slots right after construction: nothing queued, nothing
  running, an empty blackboard, and a clock that advances one millisecond per reading.
  The examples below start from it.
\<close>

definition emptySharedMemory :: SharedMemory where
  "emptySharedMemory =
     \<lparr>indexerCommands = [], currentlyIndexedSourceFilePaths = [], finishedProcessIds = [],
      crashedSourceFilePaths = [], intermediateStorages = (\<lambda>pid. [])\<rparr>"

definition idleWorld :: World where
  "idleWorld =
     \<lparr>m_appUUID = ''uuid'', m_multiProcessIndexing = True, m_processCount = 2,
      m_interrupted = False, m_lastCommandCount = 0, m_indexingFileCount = 0,
      m_runningThreadCount = 0, m_processThreads = [],
      m_interprocessIntermediateStorageManagers = [1, 2],
      shm = emptySharedMemory, blackboard = Map.empty, storageProvider = [],
      dialogsHidden = False, dialogUpdates = [], dispatched = [], joinedThreads = [],
      launchedProcesses = [], clock = (\<lambda>k. int k), clockReads = 0, slept = [],
      appPath = ''/opt/sourcetrail/'', userDataPath = ''/home/user/.config/sourcetrail/'',
      fileExists = (\<lambda>path. True), processOutcome = (\<lambda>k. (0, False))\<rparr>"

text \<open>A bundle with some content and no error record.\<close>

definition storageOf :: "string \<Rightarrow> IntermediateStorage" where
  "storageOf name = \<lparr>storageData = [name], errors = []\<rparr>"

text \<open>
  A task with work waiting to be drained: the finished-signal names slot 1, slot 2 and
  slot 1 again, the result channel of process 1 holds two bundles and that of process
  2 one; 4 of 8 source files are counted as indexed.
\<close>

definition busyWorld :: World where
  "busyWorld =
     idleWorld\<lparr>shm := emptySharedMemory
        \<lparr>finishedProcessIds := [1, 2, 1],
         intermediateStorages :=
           (\<lambda>pid. if pid = 1 then [storageOf ''a'', storageOf ''c'']
                  else if pid = 2 then [storageOf ''b''] else [])\<rparr>,
       blackboard := [''indexed_source_file_count'' \<mapsto> IntItem 4,
                      ''source_file_count'' \<mapsto> IntItem 8]\<rparr>"

text \<open>
  The same task at \<^verbatim>\<open>doExit\<close>, with two worker threads to join and two crashed
  source paths recorded; then the state after the first drain call of the exit loop,
  and the state after \<^verbatim>\<open>doExit\<close>.
\<close>

definition exitWorld :: World where
  "exitWorld =
     busyWorld\<lparr>m_processThreads := [RunIndexerThread 1, RunIndexerThread 2],
       shm := (shm busyWorld)\<lparr>crashedSourceFilePaths := [''c.cpp'', ''d.cpp'']\<rparr>\<rparr>"

definition drainedWorld :: World where
  "drainedWorld =
     exitWorld\<lparr>m_processThreads := [],
       joinedThreads := [RunIndexerThread 1, RunIndexerThread 2],
       shm := (shm exitWorld)\<lparr>finishedProcessIds := [], intermediateStorages := (\<lambda>pid. [])\<rparr>,
       storageProvider := [storageOf ''a'', storageOf ''b'', storageOf ''c''],
       clockReads := 4,
       blackboard := [''indexed_source_file_count'' \<mapsto> IntItem 7,
                      ''source_file_count'' \<mapsto> IntItem 8]\<rparr>"

definition exitedWorld :: World where
  "exitedWorld =
     drainedWorld\<lparr>clockReads := 5,
       storageProvider :=
         [storageOf ''a'', storageOf ''b'', storageOf ''c'',
          \<lparr>storageData = [],
           errors = [crashedFileError ''c.cpp'', crashedFileError ''d.cpp'']\<rparr>],
       blackboard := [''indexed_source_file_count'' \<mapsto> IntItem 7,
                      ''source_file_count'' \<mapsto> IntItem 8,
                      ''indexer_count'' \<mapsto> IntItem 0]\<rparr>"

text \<open>
  The task at \<^verbatim>\<open>doExit\<close> without any crashed path, the state after its drain
  loop and the state after \<^verbatim>\<open>doExit\<close>.
\<close>

definition quietWorld :: World where
  "quietWorld = exitWorld\<lparr>shm := (shm exitWorld)\<lparr>crashedSourceFilePaths := []\<rparr>\<rparr>"

definition quietDrainedWorld :: World where
  "quietDrainedWorld =
     drainedWorld\<lparr>shm := (shm drainedWorld)\<lparr>crashedSourceFilePaths := []\<rparr>, clockReads := 5\<rparr>"

definition quietExitedWorld :: World where
  "quietExitedWorld =
     quietDrainedWorld\<lparr>blackboard := [''indexed_source_file_count'' \<mapsto> IntItem 7,
                      ''source_file_count'' \<mapsto> IntItem 8,
                      ''indexer_count'' \<mapsto> IntItem 0]\<rparr>"

section \<open>Properties\<close>

subsection \<open>Arithmetic on 32 bits\<close>

lemma int32_in_range: "INT_MIN \<le> x \<Longrightarrow> x \<le> INT_MAX \<Longrightarrow> int32 x = x"
  by (simp add: int32_def INT_MIN_def INT_MAX_def)

lemma int32_zero: "int32 0 = 0"
  by (simp add: int32_def)

lemma int32_add_left: "int32 (int32 x + y) = int32 (x + y)"
proof -
  have "(((x + 2147483648) mod 4294967296 - 2147483648) + y + 2147483648) mod 4294967296
      = ((x + 2147483648) mod 4294967296 + y) mod 4294967296"
    by (simp add: algebra_simps)
  also have "\<dots> = ((x + 2147483648) + y) mod 4294967296"
    by (rule mod_add_left_eq)
  finally show ?thesis
    by (simp add: int32_def algebra_simps)
qed

lemma int32_add_right: "int32 (x + int32 y) = int32 (x + y)"
  using int32_add_left [of y x] by (simp add: add.commute)

lemma int32_of_small: "k < 2147483648 \<Longrightarrow> int32 (int k) = int k"
  by (rule int32_in_range) (simp_all add: INT_MIN_def INT_MAX_def)

subsection \<open>Interrupt requests\<close>

text \<open>
  C1, as stated, at a concrete input: the dialogs are hidden, an interrupt request is
  delivered, and the interrupt flag is still false afterwards. The statement of C1 says
  the flag becomes true there.
\<close>

theorem handleMessage_dialogs_hidden_counterexample:
  "dialogsHidden (idleWorld\<lparr>dialogsHidden := True\<rparr>)
   \<and> \<not> m_interrupted (handleMessage (idleWorld\<lparr>dialogsHidden := True\<rparr>))"
  by (simp add: handleMessage_def idleWorld_def)

text \<open>
  C1 (amended): for every delivery of an interrupt-request message,
  \<^verbatim>\<open>handleMessage\<close> sets the interrupt flag if and only if the dialog view reports
  that its dialogs are not hidden: when the dialogs are not hidden the flag becomes
  true and nothing else changes, and when the dialogs are hidden the state, the flag
  included, stays unchanged.
\<close>

theorem handleMessage_sets_flag_iff_dialogs_shown:
  "(\<not> dialogsHidden w \<longrightarrow> handleMessage w = w\<lparr>m_interrupted := True\<rparr>)
   \<and> (dialogsHidden w \<longrightarrow> handleMessage w = w)"
  by (simp add: handleMessage_def)

theorem handleMessage_sets_flag_iff_dialogs_shown_witness:
  "\<not> dialogsHidden idleWorld
   \<and> \<not> m_interrupted idleWorld
   \<and> m_interrupted (handleMessage idleWorld)
   \<and> dialogsHidden (idleWorld\<lparr>dialogsHidden := True\<rparr>)
   \<and> handleMessage (idleWorld\<lparr>dialogsHidden := True\<rparr>) = idleWorld\<lparr>dialogsHidden := True\<rparr>"
  using handleMessage_sets_flag_iff_dialogs_shown [of idleWorld]
    handleMessage_sets_flag_iff_dialogs_shown [of "idleWorld\<lparr>dialogsHidden := True\<rparr>"]
  by (simp add: idleWorld_def)

subsection \<open>Progress updates\<close>

lemma indexingProgress_traps_iff:
  "indexingProgress indexedSourceFileCount sourceFileCount = Inl DivisionOverflow
     \<longleftrightarrow> sourceFileCount = - 1 \<and> int32 (indexedSourceFileCount * 100) = INT_MIN"
  by (auto simp: indexingProgress_def int_divide_def)

lemma indexingProgress_cases:
  "indexingProgress indexedSourceFileCount sourceFileCount = Inl DivisionOverflow
   \<or> (\<exists>progress. indexingProgress indexedSourceFileCount sourceFileCount = Inr progress)"
  by (simp add: indexingProgress_def int_divide_def)

lemma updateIndexingDialog_unfold:
  "updateIndexingDialog paths w =
     (case indexingProgress (blackboard_get_int (blackboard w) ''indexed_source_file_count'' 0)
             (blackboard_get_int (blackboard w) ''source_file_count'' 0) of
        Inl f \<Rightarrow> Inl f
      | Inr progress \<Rightarrow>
          Inr (w\<lparr>m_indexingFileCount := m_indexingFileCount w + length paths,
                 dialogUpdates := dialogUpdates w @
                   [(m_indexingFileCount w + length paths,
                     blackboard_get_int (blackboard w) ''indexed_source_file_count'' 0,
                     blackboard_get_int (blackboard w) ''source_file_count'' 0, paths)],
                 dispatched := dispatched w @ [MessageIndexingStatus True progress]\<rparr>))"
  by (simp add: updateIndexingDialog_def Let_def split: sum.splits)

text \<open>
  C9: for every pair of values read from the blackboard, the progress percentage is 0
  when \<open>sourceFileCount\<close> is zero and is computed as
  \<open>indexedSourceFileCount * 100 / sourceFileCount\<close>, in the 32-bit arithmetic of
  \<^verbatim>\<open>int\<close> with the truncating division of C++, only when \<open>sourceFileCount\<close> is not
  zero; neither the computation nor \<^verbatim>\<open>updateIndexingDialog\<close> as a whole ever
  divides by zero. The guarded division yields the quotient of the wrapped product,
  except that it traps when the wrapped product is \<open>INT_MIN\<close> and the divisor is \<open>-1\<close>;
  when the product fits into 32 bits the result is the quotient of the product itself.
\<close>

theorem indexingProgress_never_divides_by_zero:
  "indexingProgress indexedSourceFileCount sourceFileCount \<noteq> Inl DivisionByZero
   \<and> (sourceFileCount = 0 \<longrightarrow> indexingProgress indexedSourceFileCount sourceFileCount = Inr 0)
   \<and> (sourceFileCount \<noteq> 0 \<longrightarrow>
        indexingProgress indexedSourceFileCount sourceFileCount
          = (if int32 (indexedSourceFileCount * 100) = INT_MIN \<and> sourceFileCount = - 1
             then Inl DivisionOverflow
             else Inr (int32 (indexedSourceFileCount * 100) sdiv sourceFileCount)))
   \<and> (sourceFileCount \<noteq> 0
        \<and> INT_MIN \<le> indexedSourceFileCount * 100 \<and> indexedSourceFileCount * 100 \<le> INT_MAX \<longrightarrow>
        indexingProgress indexedSourceFileCount sourceFileCount
          = Inr ((indexedSourceFileCount * 100) sdiv sourceFileCount))
   \<and> updateIndexingDialog paths w \<noteq> Inl DivisionByZero"
proof -
  have guard: "indexingProgress indexedSourceFileCount sourceFileCount \<noteq> Inl DivisionByZero"
    by (simp add: indexingProgress_def int_divide_def)
  have zero: "indexingProgress indexedSourceFileCount sourceFileCount = Inr 0"
    if "sourceFileCount = 0"
    using that by (simp add: indexingProgress_def)
  have wrapped: "indexingProgress indexedSourceFileCount sourceFileCount
          = (if int32 (indexedSourceFileCount * 100) = INT_MIN \<and> sourceFileCount = - 1
             then Inl DivisionOverflow
             else Inr (int32 (indexedSourceFileCount * 100) sdiv sourceFileCount))"
    if "sourceFileCount \<noteq> 0"
    using that by (simp add: indexingProgress_def int_divide_def)
  have exact: "indexingProgress indexedSourceFileCount sourceFileCount
          = Inr ((indexedSourceFileCount * 100) sdiv sourceFileCount)"
    if "sourceFileCount \<noteq> 0" and low: "INT_MIN \<le> indexedSourceFileCount * 100"
      and high: "indexedSourceFileCount * 100 \<le> INT_MAX"
  proof -
    have same: "int32 (indexedSourceFileCount * 100) = indexedSourceFileCount * 100"
      using low high by (rule int32_in_range)
    have "indexedSourceFileCount * 100 \<noteq> - 2147483648"
      by presburger
    then have "indexedSourceFileCount * 100 \<noteq> INT_MIN"
      by (simp add: INT_MIN_def)
    with that(1) same show ?thesis
      by (simp add: indexingProgress_def int_divide_def)
  qed
  have whole: "updateIndexingDialog paths w \<noteq> Inl DivisionByZero"
    by (simp add: updateIndexingDialog_unfold indexingProgress_def int_divide_def
        split: sum.splits)
  from guard zero wrapped exact whole show ?thesis by blast
qed

theorem indexingProgress_never_divides_by_zero_witness:
  "indexingProgress 3 0 = Inr 0 \<and> indexingProgress 3 8 = Inr 37
   \<and> indexingProgress 3 8 \<noteq> Inl DivisionByZero
   \<and> indexingProgress 21474837 21474837 = Inr (- 99)
   \<and> indexingProgress 536870912 (- 1) = Inl DivisionOverflow
   \<and> updateIndexingDialog [] idleWorld \<noteq> Inl DivisionByZero"
proof -
  have a: "int32 (3 * 100) = 300" "int32 (21474837 * 100) = - 2147483596"
    "int32 (536870912 * 100) = INT_MIN"
    by (simp_all add: int32_def INT_MIN_def)
  have b: "(3::int) * 100 \<le> INT_MAX" "INT_MIN \<le> (3::int) * 100"
    by (simp_all add: INT_MIN_def INT_MAX_def)
  from indexingProgress_never_divides_by_zero [of 3 0 "[]" idleWorld]
    indexingProgress_never_divides_by_zero [of 3 8 "[]" idleWorld]
    indexingProgress_never_divides_by_zero [of 21474837 21474837 "[]" idleWorld]
    indexingProgress_never_divides_by_zero [of 536870912 "- 1" "[]" idleWorld]
  show ?thesis
    using a b by (simp add: signed_divide_int_def INT_MIN_def)
qed

subsection \<open>The update tick after an interrupt\<close>

text \<open>
  C3, as stated, at a concrete input: the interrupt flag is set, the work-item queue is
  empty and no worker is alive. The update returns FAILURE and leaves the blackboard
  without the key \<^verbatim>\<open>interrupted_indexing\<close>; the statement of C3 says the key is
  set to true.
\<close>

theorem doUpdate_interrupted_idle_counterexample:
  "m_interrupted (idleWorld\<lparr>m_interrupted := True\<rparr>)
   \<and> doUpdate (idleWorld\<lparr>m_interrupted := True\<rparr>)
       = Inr (idleWorld\<lparr>m_interrupted := True\<rparr>, STATE_FAILURE)
   \<and> blackboard (idleWorld\<lparr>m_interrupted := True\<rparr>) ''interrupted_indexing'' = None"
  by (simp add: doUpdate_def idleWorld_def indexerCommandCount_def emptySharedMemory_def)

text \<open>
  The progress update of lines 96-105 runs before the branches of lines 107-119. In a
  state where it divides \<open>INT_MIN\<close> by \<open>-1\<close> the update tick traps there, interrupt flag
  or not.
\<close>

lemma doUpdate_interrupted_trap_example:
  "m_interrupted (idleWorld\<lparr>m_interrupted := True,
       shm := emptySharedMemory\<lparr>indexerCommands := [''a.cpp''],
                currentlyIndexedSourceFilePaths := [''a.cpp'']\<rparr>,
       blackboard := [''indexed_source_file_count'' \<mapsto> IntItem 536870912,
                      ''source_file_count'' \<mapsto> IntItem (- 1)]\<rparr>)
   \<and> doUpdate (idleWorld\<lparr>m_interrupted := True,
       shm := emptySharedMemory\<lparr>indexerCommands := [''a.cpp''],
                currentlyIndexedSourceFilePaths := [''a.cpp'']\<rparr>,
       blackboard := [''indexed_source_file_count'' \<mapsto> IntItem 536870912,
                      ''source_file_count'' \<mapsto> IntItem (- 1)]\<rparr>) = Inl DivisionOverflow"
  by (simp add: doUpdate_def idleWorld_def indexerCommandCount_def emptySharedMemory_def
      getCurrentlyIndexedSourceFilePaths_def updateIndexingDialog_unfold blackboard_get_int_def
      indexingProgress_def int_divide_def int32_def INT_MIN_def)

text \<open>
  C3 (amended): for every state in which the interrupt flag has been set, the next
  update returns FAILURE and leaves the work-item queue at size 0. When the queue was
  not empty or a worker was still alive at the call, the update sets the blackboard
  key \<^verbatim>\<open>interrupted_indexing\<close> to true and clears the queue; when the queue was
  already empty and no worker was alive, the blackboard is left as it was. The one
  exception is a tick whose progress update runs (the queue size has changed and some
  path is in flight) and divides \<open>INT_MIN\<close> by \<open>-1\<close>: that tick traps before it reaches
  the branches.
\<close>

theorem doUpdate_interrupted:
  assumes "m_interrupted w"
  shows "if indexerCommandCount w \<noteq> m_lastCommandCount w
            \<and> getCurrentlyIndexedSourceFilePaths w \<noteq> []
            \<and> indexingProgress
                 (blackboard_get_int (blackboard w) ''indexed_source_file_count'' 0)
                 (blackboard_get_int (blackboard w) ''source_file_count'' 0)
               = Inl DivisionOverflow
         then doUpdate w = Inl DivisionOverflow
         else (\<exists>w'. doUpdate w = Inr (w', STATE_FAILURE)
                \<and> indexerCommandCount w' = 0
                \<and> (if indexerCommandCount w = 0 \<and> m_runningThreadCount w = 0
                    then blackboard w' = blackboard w
                    else blackboard w' ''interrupted_indexing'' = Some (BoolItem True)))"
proof -
  let ?progress = "indexingProgress
                 (blackboard_get_int (blackboard w) ''indexed_source_file_count'' 0)
                 (blackboard_get_int (blackboard w) ''source_file_count'' 0)"
  from indexingProgress_cases [of "blackboard_get_int (blackboard w) ''indexed_source_file_count'' 0"
      "blackboard_get_int (blackboard w) ''source_file_count'' 0"]
  show ?thesis
  proof
    assume "?progress = Inl DivisionOverflow"
    with assms show ?thesis
      by (simp add: doUpdate_def updateIndexingDialog_unfold Let_def indexerCommandCount_def
          clearIndexerCommands_def blackboard_set_def)
  next
    assume "\<exists>progress. ?progress = Inr progress"
    then obtain progress where "?progress = Inr progress" ..
    with assms show ?thesis
      by (simp add: doUpdate_def updateIndexingDialog_unfold Let_def indexerCommandCount_def
          clearIndexerCommands_def blackboard_set_def)
  qed
qed

theorem doUpdate_interrupted_witness:
  "m_interrupted (idleWorld\<lparr>m_interrupted := True, m_runningThreadCount := 1,
       shm := emptySharedMemory\<lparr>indexerCommands := [''a.cpp'', ''b.cpp'']\<rparr>\<rparr>)
   \<and> (\<exists>w'. doUpdate (idleWorld\<lparr>m_interrupted := True, m_runningThreadCount := 1,
                shm := emptySharedMemory\<lparr>indexerCommands := [''a.cpp'', ''b.cpp'']\<rparr>\<rparr>)
              = Inr (w', STATE_FAILURE)
          \<and> indexerCommandCount w' = 0
          \<and> blackboard w' ''interrupted_indexing'' = Some (BoolItem True))
   \<and> m_interrupted (idleWorld\<lparr>m_interrupted := True,
       shm := emptySharedMemory\<lparr>indexerCommands := [''a.cpp''],
                currentlyIndexedSourceFilePaths := [''a.cpp'']\<rparr>,
       blackboard := [''indexed_source_file_count'' \<mapsto> IntItem 536870912,
                      ''source_file_count'' \<mapsto> IntItem (- 1)]\<rparr>)
   \<and> doUpdate (idleWorld\<lparr>m_interrupted := True,
       shm := emptySharedMemory\<lparr>indexerCommands := [''a.cpp''],
                currentlyIndexedSourceFilePaths := [''a.cpp'']\<rparr>,
       blackboard := [''indexed_source_file_count'' \<mapsto> IntItem 536870912,
                      ''source_file_count'' \<mapsto> IntItem (- 1)]\<rparr>) = Inl DivisionOverflow"
proof -
  let ?w = "idleWorld\<lparr>m_interrupted := True, m_runningThreadCount := 1,
       shm := emptySharedMemory\<lparr>indexerCommands := [''a.cpp'', ''b.cpp'']\<rparr>\<rparr>"
  let ?t = "idleWorld\<lparr>m_interrupted := True,
       shm := emptySharedMemory\<lparr>indexerCommands := [''a.cpp''],
                currentlyIndexedSourceFilePaths := [''a.cpp'']\<rparr>,
       blackboard := [''indexed_source_file_count'' \<mapsto> IntItem 536870912,
                      ''source_file_count'' \<mapsto> IntItem (- 1)]\<rparr>"
  have h: "m_interrupted ?w" by simp
  have busy: "\<not> (indexerCommandCount ?w = 0 \<and> m_runningThreadCount ?w = 0)" by simp
  have quiet: "\<not> (indexerCommandCount ?w \<noteq> m_lastCommandCount ?w
            \<and> getCurrentlyIndexedSourceFilePaths ?w \<noteq> []
            \<and> indexingProgress
                 (blackboard_get_int (blackboard ?w) ''indexed_source_file_count'' 0)
                 (blackboard_get_int (blackboard ?w) ''source_file_count'' 0)
               = Inl DivisionOverflow)"
    by (simp add: getCurrentlyIndexedSourceFilePaths_def emptySharedMemory_def)
  from doUpdate_interrupted [OF h] busy quiet h
  have first: "\<exists>w'. doUpdate ?w = Inr (w', STATE_FAILURE)
          \<and> indexerCommandCount w' = 0
          \<and> blackboard w' ''interrupted_indexing'' = Some (BoolItem True)"
    by (simp only: if_False simp_thms)
  have h': "m_interrupted ?t" by simp
  have traps: "indexerCommandCount ?t \<noteq> m_lastCommandCount ?t
            \<and> getCurrentlyIndexedSourceFilePaths ?t \<noteq> []
            \<and> indexingProgress
                 (blackboard_get_int (blackboard ?t) ''indexed_source_file_count'' 0)
                 (blackboard_get_int (blackboard ?t) ''source_file_count'' 0)
               = Inl DivisionOverflow"
    by (simp add: getCurrentlyIndexedSourceFilePaths_def emptySharedMemory_def
        indexerCommandCount_def idleWorld_def blackboard_get_int_def indexingProgress_def
        int_divide_def int32_def INT_MIN_def)
  from doUpdate_interrupted [OF h'] traps
  have second: "doUpdate ?t = Inl DivisionOverflow"
    by (simp only: if_True simp_thms)
  from h first h' second show ?thesis by (intro conjI)
qed

subsection \<open>The live-worker counter\<close>

lemma runIndexerThread_counter:
  "m_runningThreadCount (runIndexerThread work processId w) = m_runningThreadCount w"
  by (simp add: runIndexerThread_def Let_def)

lemma relaunchLoop_counter:
  assumes "relaunchLoop c a r w = Some y"
  shows "m_runningThreadCount (snd y) = m_runningThreadCount w"
proof (rule relaunchLoop.raw_induct
    [where P = "\<lambda>c a r w y. m_runningThreadCount (snd y) = m_runningThreadCount w", OF _ assms])
  fix relaunchLoop' c a r w y
  assume IH: "\<And>a r w b y. relaunchLoop' a r w b = Some y \<Longrightarrow>
                 m_runningThreadCount (snd y) = m_runningThreadCount b"
    and step: "(if r \<noteq> 0 \<and> \<not> m_interrupted w
          then let (result', w') = executeProcessAndGetExitCode c a w
               in relaunchLoop' c a result' w'
          else Some (r, w)) = Some y"
  show "m_runningThreadCount (snd y) = m_runningThreadCount w"
  proof (cases "r \<noteq> 0 \<and> \<not> m_interrupted w")
    case True
    with step have "relaunchLoop' c a (fst (executeProcessAndGetExitCode c a w))
        (snd (executeProcessAndGetExitCode c a w)) = Some y"
      by (simp add: case_prod_unfold Let_def)
    from IH [OF this] show ?thesis
      by (simp add: executeProcessAndGetExitCode_def Let_def)
  next
    case False
    with step show ?thesis by auto
  qed
qed

lemma runIndexerProcess_counter:
  "fileExists w (appPath w @ s_processName) \<Longrightarrow> runIndexerProcess pid log w = Some w' \<Longrightarrow>
    m_runningThreadCount w' = m_runningThreadCount w"
  by (auto simp: runIndexerProcess_def Let_def split: option.splits dest!: relaunchLoop_counter)


text \<open>
  C2, the failing input: a process-mode worker routine is started on a task whose
  counter is 0 while the indexer executable is missing. The routine returns through the
  early \<^verbatim>\<open>return\<close> of line 193 with the interrupt flag set and the counter at 1:
  the increment of line 185 is not undone on this exit path, while every other exit
  path of both routines restores the counter (\<open>runIndexerThread_counter\<close>,
  \<open>runIndexerProcess_counter\<close>).
\<close>

theorem runIndexerProcess_missing_executable_keeps_increment:
  "m_runningThreadCount (idleWorld\<lparr>fileExists := (\<lambda>path. False)\<rparr>) = 0
   \<and> runIndexerProcess 1 [] (idleWorld\<lparr>fileExists := (\<lambda>path. False)\<rparr>)
       = Some (idleWorld\<lparr>fileExists := (\<lambda>path. False), m_runningThreadCount := 1,
                         m_interrupted := True\<rparr>)"
  by (simp add: runIndexerProcess_def idleWorld_def)

subsection \<open>Relaunching a crashed indexer process\<close>

lemma relaunchLoop_stop:
  "result = 0 \<or> m_interrupted w \<Longrightarrow> relaunchLoop c a result w = Some (result, w)"
  by (subst relaunchLoop.simps) auto

lemma relaunchLoop_step:
  "result \<noteq> 0 \<Longrightarrow> \<not> m_interrupted w \<Longrightarrow>
   relaunchLoop c a result w =
     relaunchLoop c a (fst (processOutcome w (length (launchedProcesses w))))
       (w\<lparr>launchedProcesses := launchedProcesses w @ [(c, a)],
          m_interrupted := snd (processOutcome w (length (launchedProcesses w)))\<rparr>)"
  by (subst relaunchLoop.simps) (simp add: executeProcessAndGetExitCode_def Let_def)

lemma relaunchLoop_terminates:
  "result \<noteq> 0 \<Longrightarrow> \<not> m_interrupted w \<Longrightarrow> crashedUntil w n \<Longrightarrow>
   relaunchLoop c a result w =
     Some (fst (processOutcome w (length (launchedProcesses w) + n)),
           w\<lparr>launchedProcesses := launchedProcesses w @ replicate (Suc n) (c, a),
              m_interrupted := snd (processOutcome w (length (launchedProcesses w) + n))\<rparr>)"
proof (induction n arbitrary: result w)
  case 0
  then show ?case
    by (simp add: relaunchLoop_step crashedUntil_def) (rule relaunchLoop_stop, auto)
next
  case (Suc n)
  let ?w1 = "w\<lparr>launchedProcesses := launchedProcesses w @ [(c, a)],
          m_interrupted := snd (processOutcome w (length (launchedProcesses w)))\<rparr>"
  from Suc.prems have first: "fst (processOutcome w (length (launchedProcesses w))) \<noteq> 0"
      "\<not> snd (processOutcome w (length (launchedProcesses w)))"
    by (auto simp: crashedUntil_def dest: spec [of _ 0])
  have cu: "crashedUntil ?w1 n"
    using Suc.prems(3) unfolding crashedUntil_def
    by (auto dest: spec [of _ "Suc _"])
  have "relaunchLoop c a result w =
      relaunchLoop c a (fst (processOutcome w (length (launchedProcesses w)))) ?w1"
    using Suc.prems by (simp add: relaunchLoop_step)
  also have "\<dots> = Some (fst (processOutcome ?w1 (length (launchedProcesses ?w1) + n)),
           ?w1\<lparr>launchedProcesses := launchedProcesses ?w1 @ replicate (Suc n) (c, a),
              m_interrupted := snd (processOutcome ?w1 (length (launchedProcesses ?w1) + n))\<rparr>)"
    using first cu by (intro Suc.IH) auto
  finally show ?case
    by (simp add: replicate_app_Cons_same)
qed

lemma relaunchLoop_returns_crashedUntil:
  assumes "relaunchLoop c a result w = Some y"
  shows "result \<noteq> 0 \<and> \<not> m_interrupted w \<longrightarrow> (\<exists>n. crashedUntil w n)"
proof (rule relaunchLoop.raw_induct
    [where P = "\<lambda>c a r w y. r \<noteq> 0 \<and> \<not> m_interrupted w \<longrightarrow> (\<exists>n. crashedUntil w n)",
      OF _ assms])
  fix relaunchLoop' c a r w y
  assume IH: "\<And>c a r w y. relaunchLoop' c a r w = Some y \<Longrightarrow>
                 r \<noteq> 0 \<and> \<not> m_interrupted w \<longrightarrow> (\<exists>n. crashedUntil w n)"
    and step: "(if r \<noteq> 0 \<and> \<not> m_interrupted w
          then let (result', w') = executeProcessAndGetExitCode c a w
               in relaunchLoop' c a result' w'
          else Some (r, w)) = Some y"
  show "r \<noteq> 0 \<and> \<not> m_interrupted w \<longrightarrow> (\<exists>n. crashedUntil w n)"
  proof
    assume running: "r \<noteq> 0 \<and> \<not> m_interrupted w"
    let ?o = "processOutcome w (length (launchedProcesses w))"
    let ?w1 = "w\<lparr>launchedProcesses := launchedProcesses w @ [(c, a)], m_interrupted := snd ?o\<rparr>"
    from running step have call: "relaunchLoop' c a (fst ?o) ?w1 = Some y"
      by (simp add: executeProcessAndGetExitCode_def Let_def)
    show "\<exists>n. crashedUntil w n"
    proof (cases "fst ?o = 0 \<or> snd ?o")
      case True
      then have "crashedUntil w 0" by (simp add: crashedUntil_def)
      then show ?thesis ..
    next
      case False
      with IH [OF call] obtain n where n: "crashedUntil ?w1 n" by auto
      have "crashedUntil w (Suc n)"
        unfolding crashedUntil_def
      proof (intro conjI allI impI)
        fix j assume "j < Suc n"
        then show "fst (processOutcome w (length (launchedProcesses w) + j)) \<noteq> 0"
          using False n by (cases j) (auto simp: crashedUntil_def)
        from \<open>j < Suc n\<close> show "\<not> snd (processOutcome w (length (launchedProcesses w) + j))"
          using False n by (cases j) (auto simp: crashedUntil_def)
      next
        show "fst (processOutcome w (length (launchedProcesses w) + Suc n)) = 0 \<or>
              snd (processOutcome w (length (launchedProcesses w) + Suc n))"
          using n by (simp add: crashedUntil_def)
      qed
      then show ?thesis ..
    qed
  qed
qed

lemma to_wstring_1: "to_wstring (Suc 0) = ''1''"
  by code_simp

lemma crashedUntil_counter [simp]:
  "crashedUntil (w\<lparr>m_runningThreadCount := c\<rparr>) n = crashedUntil w n"
  by (simp add: crashedUntil_def)

lemma runIndexerProcess_interrupted_at_entry:
  "fileExists w (appPath w @ s_processName) \<Longrightarrow> m_interrupted w \<Longrightarrow>
   runIndexerProcess processId logFilePath w = Some w"
  by (simp add: runIndexerProcess_def Let_def relaunchLoop_stop)

text \<open>
  C8: in process mode, the supervising routine \<^verbatim>\<open>runIndexerProcess\<close>, started with
  the executable in place and the interrupt flag not set, launches the indexer process
  and, whenever the process exits with a non-zero exit code while the interrupt flag is
  not set, launches it again with the same command path and the same argument list;
  the loop ends only when an exit code of 0 is observed or the interrupt flag has
  become true. The routine returns exactly when some run ends with exit code 0 or with
  an interrupt requested: with \<open>n\<close> the number of crashed runs before that run, it has
  launched the process \<open>n + 1\<close> times, every time with the command path and the
  arguments built in lines 196-206, and nothing else of the state has changed but the
  interrupt flag. When no run ever ends that way the routine does not return.
\<close>

theorem runIndexerProcess_relaunches_until_success_or_interrupt:
  assumes "fileExists w (appPath w @ s_processName)" and "\<not> m_interrupted w"
  shows "(runIndexerProcess processId logFilePath w = Some w'
          \<longleftrightarrow> (\<exists>n. crashedUntil w n
                 \<and> w' = w\<lparr>launchedProcesses :=
                             launchedProcesses w @ replicate (Suc n)
                               (quoted (appPath w @ s_processName),
                                [to_wstring processId, m_appUUID w, quoted (appPath w),
                                 quoted (userDataPath w)]
                                @ (if logFilePath \<noteq> [] then [quoted logFilePath] else [])),
                           m_interrupted :=
                             snd (processOutcome w (length (launchedProcesses w) + n))\<rparr>))
     \<and> (runIndexerProcess processId logFilePath w = Some w'
          \<longrightarrow> (\<exists>n. length (launchedProcesses w') = length (launchedProcesses w) + Suc n
                 \<and> (fst (processOutcome w (length (launchedProcesses w) + n)) = 0
                    \<or> m_interrupted w')))
     \<and> (runIndexerProcess processId logFilePath w = None
          \<longleftrightarrow> (\<forall>n. \<not> crashedUntil w n))"
proof -
  let ?cmd = "quoted (appPath w @ s_processName)"
  let ?args = "[to_wstring processId, m_appUUID w, quoted (appPath w), quoted (userDataPath w)]
                 @ (if logFilePath \<noteq> [] then [quoted logFilePath] else [])"
  let ?w1 = "w\<lparr>m_runningThreadCount := m_runningThreadCount w + 1\<rparr>"
  let ?end = "\<lambda>n. w\<lparr>launchedProcesses := launchedProcesses w @ replicate (Suc n) (?cmd, ?args),
                     m_interrupted := snd (processOutcome w (length (launchedProcesses w) + n))\<rparr>"
  have routine: "runIndexerProcess processId logFilePath w =
      (case relaunchLoop ?cmd ?args 1 ?w1 of
         None \<Rightarrow> None
       | Some (result, w2) \<Rightarrow> Some (w2\<lparr>m_runningThreadCount := m_runningThreadCount w2 - 1\<rparr>))"
    using assms(1) by (simp add: runIndexerProcess_def Let_def)
  have entry: "(1::int) \<noteq> 0" "\<not> m_interrupted ?w1"
    using assms(2) by simp_all
  have returns: "runIndexerProcess processId logFilePath w = Some (?end n)"
    if "crashedUntil w n" for n
  proof -
    from that have "crashedUntil ?w1 n" by simp
    from relaunchLoop_terminates [OF entry this, of ?cmd ?args]
    show ?thesis by (simp add: routine)
  qed
  have crashed: "\<exists>n. crashedUntil w n"
    if "runIndexerProcess processId logFilePath w = Some y" for y
  proof -
    from that obtain z where "relaunchLoop ?cmd ?args 1 ?w1 = Some z"
      by (auto simp: routine split: option.splits)
    from relaunchLoop_returns_crashedUntil [OF this] entry show ?thesis by simp
  qed
  have char: "runIndexerProcess processId logFilePath w = Some w'
      \<longleftrightarrow> (\<exists>n. crashedUntil w n \<and> w' = ?end n)" (is "?L \<longleftrightarrow> ?R")
  proof
    assume ?L
    from crashed [OF this] obtain n where n: "crashedUntil w n" ..
    from returns [OF n] \<open>?L\<close> n show ?R by auto
  next
    assume ?R
    then show ?L using returns by auto
  qed
  have stop: "\<exists>n. length (launchedProcesses w') = length (launchedProcesses w) + Suc n
                 \<and> (fst (processOutcome w (length (launchedProcesses w) + n)) = 0
                    \<or> m_interrupted w')"
    if "runIndexerProcess processId logFilePath w = Some w'"
  proof -
    from that char obtain n where n: "crashedUntil w n" and w': "w' = ?end n" by blast
    from n have "fst (processOutcome w (length (launchedProcesses w) + n)) = 0
        \<or> snd (processOutcome w (length (launchedProcesses w) + n))"
      by (simp add: crashedUntil_def)
    then show ?thesis
      by (intro exI [of _ n]) (simp add: w')
  qed
  have never: "runIndexerProcess processId logFilePath w = None \<longleftrightarrow> (\<forall>n. \<not> crashedUntil w n)"
    using crashed returns by (cases "runIndexerProcess processId logFilePath w") auto
  from char stop never show ?thesis by blast
qed

theorem runIndexerProcess_relaunches_until_success_or_interrupt_witness:
  "fileExists (idleWorld\<lparr>processOutcome := (\<lambda>k. if k < 2 then (139, False) else (0, False))\<rparr>)
     (appPath (idleWorld\<lparr>processOutcome := (\<lambda>k. if k < 2 then (139, False) else (0, False))\<rparr>)
      @ s_processName)
   \<and> \<not> m_interrupted (idleWorld\<lparr>processOutcome := (\<lambda>k. if k < 2 then (139, False) else (0, False))\<rparr>)
   \<and> crashedUntil (idleWorld\<lparr>processOutcome := (\<lambda>k. if k < 2 then (139, False) else (0, False))\<rparr>) 2
   \<and> runIndexerProcess 1 ''indexer.log''
        (idleWorld\<lparr>processOutcome := (\<lambda>k. if k < 2 then (139, False) else (0, False))\<rparr>)
      = Some (idleWorld\<lparr>processOutcome := (\<lambda>k. if k < 2 then (139, False) else (0, False)),
                launchedProcesses := replicate 3
                  (quoted ''/opt/sourcetrail/sourcetrail_indexer'',
                   [''1'', ''uuid'', quoted ''/opt/sourcetrail/'',
                    quoted ''/home/user/.config/sourcetrail/'', quoted ''indexer.log'']),
                m_interrupted := False\<rparr>)"
proof -
  let ?w = "idleWorld\<lparr>processOutcome := (\<lambda>k. if k < 2 then (139, False) else (0, False))\<rparr>"
  let ?w' = "?w\<lparr>launchedProcesses := replicate 3
                  (quoted ''/opt/sourcetrail/sourcetrail_indexer'',
                   [''1'', ''uuid'', quoted ''/opt/sourcetrail/'',
                    quoted ''/home/user/.config/sourcetrail/'', quoted ''indexer.log'']),
                m_interrupted := False\<rparr>"
  have h1: "fileExists ?w (appPath ?w @ s_processName)" by (simp add: idleWorld_def)
  have h2: "\<not> m_interrupted ?w" by (simp add: idleWorld_def)
  have cu: "crashedUntil ?w 2" by (simp add: crashedUntil_def idleWorld_def)
  have "\<exists>n. crashedUntil ?w n
          \<and> ?w' = ?w\<lparr>launchedProcesses :=
                             launchedProcesses ?w @ replicate (Suc n)
                               (quoted (appPath ?w @ s_processName),
                                [to_wstring 1, m_appUUID ?w, quoted (appPath ?w),
                                 quoted (userDataPath ?w)]
                                @ (if ''indexer.log'' \<noteq> [] then [quoted ''indexer.log''] else [])),
                           m_interrupted :=
                             snd (processOutcome ?w (length (launchedProcesses ?w) + n))\<rparr>"
    by (rule exI [of _ 2])
      (simp add: cu, simp add: idleWorld_def numeral_3_eq_3 s_processName_def to_wstring_1)
  with runIndexerProcess_relaunches_until_success_or_interrupt [OF h1 h2, of 1 "''indexer.log''" ?w']
  have "runIndexerProcess 1 ''indexer.log'' ?w = Some ?w'" by blast
  with h1 h2 cu show ?thesis by simp
qed

subsection \<open>The drain step\<close>

lemma fetchLoop_refines_drainSpec:
  "fetchLoop t w p =
     (case drainSpec (m_interprocessIntermediateStorageManagers w)
             (\<lambda>i. deltaMS (clock w (clockReads w + i)) t < 500)
             (finishedProcessIds (shm w)) (intermediateStorages (shm w)) (storageProvider w) of
        (signal', channel', sink', k) \<Rightarrow>
          (w\<lparr>shm := (shm w)\<lparr>finishedProcessIds := signal', intermediateStorages := channel'\<rparr>,
             storageProvider := sink', clockReads := clockReads w + k\<rparr>,
           if k = 0 then p else int32 (p + int k)))"
proof (induction ids \<equiv> "finishedProcessIds (shm w)" arbitrary: w p)
  case Nil
  then show ?case
    by (subst fetchLoop.simps) (simp add: getNextFinishedProcessId_def [of w] Nil [symmetric])
next
  case (Cons slotId signal)
  note ids = Cons.hyps(2) [symmetric]
  let ?w1 = "w\<lparr>shm := (shm w)\<lparr>finishedProcessIds := signal\<rparr>\<rparr>"
  have next_id: "getNextFinishedProcessId w = (slotId, ?w1)"
    by (simp add: getNextFinishedProcessId_def ids)
  show ?case
  proof (cases "slotId = 0 \<or> length (m_interprocessIntermediateStorageManagers w) < slotId")
    case True
    then show ?thesis
      by (subst fetchLoop.simps) (auto simp: next_id ids)
  next
    case valid: False
    let ?pid = "m_interprocessIntermediateStorageManagers w ! (slotId - 1)"
    show ?thesis
    proof (cases "intermediateStorages (shm w) ?pid")
      case Nil
      with valid show ?thesis
        by (subst fetchLoop.simps) (auto simp: next_id ids getIntermediateStorageCount_def)
    next
      case (Cons b bs)
      let ?w4 = "w\<lparr>shm := (shm w)\<lparr>finishedProcessIds := signal,
                      intermediateStorages := (intermediateStorages (shm w))(?pid := bs)\<rparr>,
                    storageProvider := storageProvider w @ [b],
                    clockReads := Suc (clockReads w)\<rparr>"
      have unfold: "fetchLoop t w p =
          (if deltaMS (clock w (clockReads w)) t < 500 then fetchLoop t ?w4 (int32 (p + 1))
           else (?w4, int32 (p + 1)))"
        using valid Cons
        by (subst fetchLoop.simps)
          (simp add: next_id getIntermediateStorageCount_def popIntermediateStorage_def
            StorageProvider_insert_def TimeStamp_now_def Let_def)
      show ?thesis
      proof (cases "deltaMS (clock w (clockReads w)) t < 500")
        case True
        have "signal = finishedProcessIds (shm ?w4)" by simp
        from Cons.hyps(1) [OF this, of "int32 (p + 1)"] True valid Cons show ?thesis
          by (simp add: unfold ids int32_add_left add.assoc split: prod.splits)
      next
        case False
        with valid Cons show ?thesis
          by (simp add: unfold ids)
      qed
    qed
  qed
qed

lemma fetch_unfold:
  assumes "getStorageCount w \<le> 10"
  shows "fetchIntermediateStorages w =
     (case drainSpec (m_interprocessIntermediateStorageManagers w)
             (\<lambda>i. deltaMS (clock w (Suc (clockReads w + i))) (clock w (clockReads w)) < 500)
             (finishedProcessIds (shm w)) (intermediateStorages (shm w)) (storageProvider w) of
        (signal', channel', sink', k) \<Rightarrow>
          (w\<lparr>shm := (shm w)\<lparr>finishedProcessIds := signal', intermediateStorages := channel'\<rparr>,
             storageProvider := sink',
             clockReads := Suc (clockReads w + k),
             blackboard :=
               (if 0 < int32 (int k) then
                  blackboard_set (blackboard w) ''indexed_source_file_count''
                    (IntItem (int32
                       (blackboard_get_int (blackboard w) ''indexed_source_file_count'' 0 + int k)))
                else blackboard w)\<rparr>,
           0 < int32 (int k)))"
  using assms
  by (simp add: fetchIntermediateStorages_def TimeStamp_now_def fetchLoop_refines_drainSpec
      int32_zero int32_add_right split: prod.splits)

lemma drainSpec_counts:
  "drainSpec slots inBudget signal channel sink = (signal', channel', sink', k) \<Longrightarrow>
   length sink' = length sink + k \<and> length signal' + k \<le> length signal
   \<and> (k = 0 \<longrightarrow> channel' = channel \<and> sink' = sink)"
proof (induction signal arbitrary: inBudget channel sink signal' channel' sink' k)
  case Nil
  then show ?case by simp
next
  case (Cons slotId signal)
  show ?case
  proof (cases "slotId = 0 \<or> length slots < slotId")
    case True
    with Cons.prems show ?thesis by auto
  next
    case valid: False
    show ?thesis
    proof (cases "channel (slots ! (slotId - 1))")
      case Nil
      with valid Cons.prems show ?thesis by auto
    next
      case (Cons b bs)
      show ?thesis
      proof (cases "inBudget 0")
        case True
        obtain sg c s j where rec: "drainSpec slots (\<lambda>i. inBudget (Suc i)) signal
            (channel(slots ! (slotId - 1) := bs)) (sink @ [b]) = (sg, c, s, j)"
          by (metis prod_cases4)
        from Cons.IH [OF rec] rec valid Cons True Cons.prems show ?thesis
          by (auto simp: Let_def)
      next
        case False
        with valid Cons Cons.prems show ?thesis by (auto simp: Let_def)
      qed
    qed
  qed
qed

text \<open>
  C4: a drain call made while the storage provider holds more than 10 bundles pops no
  bundle, consumes nothing from the finished-signal, leaves the blackboard's
  \<^verbatim>\<open>indexed_source_file_count\<close> unchanged, sleeps the fixed 100 milliseconds and
  returns true. The only change of the state is the recorded sleep.
\<close>

theorem fetchIntermediateStorages_backpressure:
  assumes "10 < getStorageCount w"
  shows "fetchIntermediateStorages w = (w\<lparr>slept := slept w @ [100]\<rparr>, True)
     \<and> intermediateStorages (shm (fst (fetchIntermediateStorages w))) = intermediateStorages (shm w)
     \<and> storageProvider (fst (fetchIntermediateStorages w)) = storageProvider w
     \<and> finishedProcessIds (shm (fst (fetchIntermediateStorages w))) = finishedProcessIds (shm w)
     \<and> blackboard (fst (fetchIntermediateStorages w)) ''indexed_source_file_count''
         = blackboard w ''indexed_source_file_count''
     \<and> slept (fst (fetchIntermediateStorages w)) = slept w @ [100]
     \<and> snd (fetchIntermediateStorages w)"
  using assms by (simp add: fetchIntermediateStorages_def sleep_for_def)

theorem fetchIntermediateStorages_backpressure_witness:
  "10 < getStorageCount (idleWorld\<lparr>storageProvider := replicate 11 (storageOf ''a'')\<rparr>)
   \<and> snd (fetchIntermediateStorages (idleWorld\<lparr>storageProvider := replicate 11 (storageOf ''a'')\<rparr>))
   \<and> slept (fst (fetchIntermediateStorages
        (idleWorld\<lparr>storageProvider := replicate 11 (storageOf ''a'')\<rparr>))) = [100]"
proof -
  have h: "10 < getStorageCount (idleWorld\<lparr>storageProvider := replicate 11 (storageOf ''a'')\<rparr>)"
    by (simp add: getStorageCount_def)
  show ?thesis
    using h fetchIntermediateStorages_backpressure [OF h] by (simp add: idleWorld_def)
qed

lemma drainSpec_nothing:
  assumes "signal = [] \<or> (\<forall>slotId\<in>set signal. 1 \<le> slotId \<and> slotId \<le> length slots
             \<longrightarrow> channel (slots ! (slotId - 1)) = [])"
  shows "\<exists>signal'. drainSpec slots inBudget signal channel sink = (signal', channel, sink, 0)"
proof (cases signal)
  case Nil
  then show ?thesis by simp
next
  case (Cons slotId rest)
  with assms have "1 \<le> slotId \<and> slotId \<le> length slots \<longrightarrow> channel (slots ! (slotId - 1)) = []"
    by simp
  with Cons show ?thesis by (cases "slotId = 0 \<or> length slots < slotId") auto
qed

text \<open>
  C5, as stated, at a concrete input: the finished-signal is empty while the storage
  provider holds 12 bundles. The drain call returns true ("work happened"); the
  statement of C5 says it returns false.
\<close>

theorem fetchIntermediateStorages_idle_backpressure_counterexample:
  "finishedProcessIds (shm (idleWorld\<lparr>storageProvider := replicate 12 (storageOf ''x'')\<rparr>)) = []
   \<and> snd (fetchIntermediateStorages (idleWorld\<lparr>storageProvider := replicate 12 (storageOf ''x'')\<rparr>))"
  by (simp add: fetchIntermediateStorages_def idleWorld_def emptySharedMemory_def getStorageCount_def)

text \<open>
  C5 (amended): for every drain call made while the storage provider holds at most 10
  bundles, when the finished-signal is empty, or when every result channel referenced
  by an id of the finished-signal holds zero bundles, the call pops no bundle, inserts
  nothing into the storage provider, leaves the blackboard (and with it
  \<^verbatim>\<open>indexed_source_file_count\<close>) unchanged and returns false.
\<close>

theorem fetchIntermediateStorages_nothing_ready:
  assumes "getStorageCount w \<le> 10"
    and "finishedProcessIds (shm w) = []
         \<or> (\<forall>slotId\<in>set (finishedProcessIds (shm w)).
               1 \<le> slotId \<and> slotId \<le> length (m_interprocessIntermediateStorageManagers w)
               \<longrightarrow> intermediateStorages (shm w)
                     (m_interprocessIntermediateStorageManagers w ! (slotId - 1)) = [])"
  shows "intermediateStorages (shm (fst (fetchIntermediateStorages w))) = intermediateStorages (shm w)
     \<and> storageProvider (fst (fetchIntermediateStorages w)) = storageProvider w
     \<and> blackboard (fst (fetchIntermediateStorages w)) = blackboard w
     \<and> \<not> snd (fetchIntermediateStorages w)"
proof -
  from drainSpec_nothing [OF assms(2)] obtain signal' where
    "drainSpec (m_interprocessIntermediateStorageManagers w)
       (\<lambda>i. deltaMS (clock w (Suc (clockReads w + i))) (clock w (clockReads w)) < 500)
       (finishedProcessIds (shm w)) (intermediateStorages (shm w)) (storageProvider w)
     = (signal', intermediateStorages (shm w), storageProvider w, 0)"
    by blast
  then show ?thesis
    by (simp add: fetch_unfold [OF assms(1)] int32_zero)
qed

theorem fetchIntermediateStorages_nothing_ready_witness:
  "getStorageCount (idleWorld\<lparr>shm := emptySharedMemory\<lparr>finishedProcessIds := [2, 1]\<rparr>\<rparr>) \<le> 10
   \<and> \<not> snd (fetchIntermediateStorages (idleWorld\<lparr>shm := emptySharedMemory\<lparr>finishedProcessIds := [2, 1]\<rparr>\<rparr>))
   \<and> storageProvider (fst (fetchIntermediateStorages
        (idleWorld\<lparr>shm := emptySharedMemory\<lparr>finishedProcessIds := [2, 1]\<rparr>\<rparr>))) = []
   \<and> finishedProcessIds (shm (fst (fetchIntermediateStorages
        (idleWorld\<lparr>shm := emptySharedMemory\<lparr>finishedProcessIds := [2, 1]\<rparr>\<rparr>)))) = [1]"
proof -
  let ?w = "idleWorld\<lparr>shm := emptySharedMemory\<lparr>finishedProcessIds := [2, 1]\<rparr>\<rparr>"
  have h1: "getStorageCount ?w \<le> 10" by (simp add: getStorageCount_def idleWorld_def)
  have h2: "finishedProcessIds (shm ?w) = []
         \<or> (\<forall>slotId\<in>set (finishedProcessIds (shm ?w)).
               1 \<le> slotId \<and> slotId \<le> length (m_interprocessIntermediateStorageManagers ?w)
               \<longrightarrow> intermediateStorages (shm ?w)
                     (m_interprocessIntermediateStorageManagers ?w ! (slotId - 1)) = [])"
    by (simp add: emptySharedMemory_def)
  have sig: "finishedProcessIds (shm (fst (fetchIntermediateStorages ?w))) = [1]"
    by (subst fetch_unfold [OF h1]) (simp add: idleWorld_def emptySharedMemory_def)
  from fetchIntermediateStorages_nothing_ready [OF h1 h2] h1 sig show ?thesis by (simp add: idleWorld_def)
qed

text \<open>
  C6: a drain call made while the storage provider holds at most 10 bundles does what
  \<open>drainSpec\<close> describes: it pops the next finished slot id and stops if there is none,
  stops if the id is 0 or greater than the number of worker slots, stops if that slot's
  result channel holds zero bundles, and otherwise pops exactly one bundle from that
  channel and inserts it into the storage provider; it also stops once 500 milliseconds
  have elapsed since the call began. With \<open>k\<close> the number of bundles popped, the
  storage provider has grown by exactly \<open>k\<close> bundles. The call counts the bundles and
  adds the count to the blackboard's \<^verbatim>\<open>indexed_source_file_count\<close> in the 32-bit
  arithmetic of \<^verbatim>\<open>int\<close>: it returns true and stores the 32-bit sum of the old value
  and \<open>k\<close> when the 32-bit count is positive, and it leaves the blackboard alone and
  returns false otherwise. For every \<open>k\<close> below \<open>2\<^sup>3\<^sup>1\<close> that is: it returns true if
  \<open>k > 0\<close> and false if \<open>k = 0\<close>; and whenever the old value plus \<open>k\<close> does not exceed
  \<open>INT_MAX\<close>, the new value is exactly the old value plus \<open>k\<close>.
\<close>

theorem fetchIntermediateStorages_refines_drainSpec:
  assumes "getStorageCount w \<le> 10"
  shows "\<exists>signal' channel' sink' k.
      drainSpec (m_interprocessIntermediateStorageManagers w)
         (\<lambda>i. deltaMS (clock w (Suc (clockReads w + i))) (clock w (clockReads w)) < 500)
         (finishedProcessIds (shm w)) (intermediateStorages (shm w)) (storageProvider w)
        = (signal', channel', sink', k)
      \<and> finishedProcessIds (shm (fst (fetchIntermediateStorages w))) = signal'
      \<and> intermediateStorages (shm (fst (fetchIntermediateStorages w))) = channel'
      \<and> storageProvider (fst (fetchIntermediateStorages w)) = sink'
      \<and> length sink' = length (storageProvider w) + k
      \<and> blackboard (fst (fetchIntermediateStorages w)) =
          (if 0 < int32 (int k) then
             (blackboard w)(''indexed_source_file_count'' \<mapsto>
                IntItem (int32
                  (blackboard_get_int (blackboard w) ''indexed_source_file_count'' 0 + int k)))
           else blackboard w)
      \<and> snd (fetchIntermediateStorages w) = (0 < int32 (int k))
      \<and> (k < 2147483648 \<longrightarrow> snd (fetchIntermediateStorages w) = (0 < k))
      \<and> (k < 2147483648
           \<and> INT_MIN \<le> blackboard_get_int (blackboard w) ''indexed_source_file_count'' 0
           \<and> blackboard_get_int (blackboard w) ''indexed_source_file_count'' 0 + int k \<le> INT_MAX
           \<longrightarrow> blackboard_get_int (blackboard (fst (fetchIntermediateStorages w)))
                  ''indexed_source_file_count'' 0
                = blackboard_get_int (blackboard w) ''indexed_source_file_count'' 0 + int k)"
proof -
  let ?old = "blackboard_get_int (blackboard w) ''indexed_source_file_count'' 0"
  obtain signal' channel' sink' k where spec:
    "drainSpec (m_interprocessIntermediateStorageManagers w)
         (\<lambda>i. deltaMS (clock w (Suc (clockReads w + i))) (clock w (clockReads w)) < 500)
         (finishedProcessIds (shm w)) (intermediateStorages (shm w)) (storageProvider w)
        = (signal', channel', sink', k)"
    by (metis prod_cases4)
  from drainSpec_counts [OF spec] have len: "length sink' = length (storageProvider w) + k"
    by simp
  have state: "finishedProcessIds (shm (fst (fetchIntermediateStorages w))) = signal'"
    "intermediateStorages (shm (fst (fetchIntermediateStorages w))) = channel'"
    "storageProvider (fst (fetchIntermediateStorages w)) = sink'"
    by (simp_all add: fetch_unfold [OF assms] spec)
  have board: "blackboard (fst (fetchIntermediateStorages w)) =
          (if 0 < int32 (int k) then
             (blackboard w)(''indexed_source_file_count'' \<mapsto> IntItem (int32 (?old + int k)))
           else blackboard w)"
    by (simp add: fetch_unfold [OF assms] spec blackboard_set_def)
  have result: "snd (fetchIntermediateStorages w) = (0 < int32 (int k))"
    by (simp add: fetch_unfold [OF assms] spec)
  have small: "snd (fetchIntermediateStorages w) = (0 < k)" if "k < 2147483648"
    using that by (simp add: result int32_of_small)
  have exact: "blackboard_get_int (blackboard (fst (fetchIntermediateStorages w)))
                  ''indexed_source_file_count'' 0 = ?old + int k"
    if "k < 2147483648" and "INT_MIN \<le> ?old" and "?old + int k \<le> INT_MAX"
  proof (cases "0 < k")
    case True
    have "int32 (?old + int k) = ?old + int k"
      using that by (intro int32_in_range) simp_all
    with True that(1) show ?thesis
      by (simp add: board int32_of_small blackboard_get_int_def)
  next
    case False
    then show ?thesis
      by (simp add: board int32_zero)
  qed
  have "drainSpec (m_interprocessIntermediateStorageManagers w)
         (\<lambda>i. deltaMS (clock w (Suc (clockReads w + i))) (clock w (clockReads w)) < 500)
         (finishedProcessIds (shm w)) (intermediateStorages (shm w)) (storageProvider w)
        = (signal', channel', sink', k)
      \<and> finishedProcessIds (shm (fst (fetchIntermediateStorages w))) = signal'
      \<and> intermediateStorages (shm (fst (fetchIntermediateStorages w))) = channel'
      \<and> storageProvider (fst (fetchIntermediateStorages w)) = sink'
      \<and> length sink' = length (storageProvider w) + k
      \<and> blackboard (fst (fetchIntermediateStorages w)) =
          (if 0 < int32 (int k) then
             (blackboard w)(''indexed_source_file_count'' \<mapsto> IntItem (int32 (?old + int k)))
           else blackboard w)
      \<and> snd (fetchIntermediateStorages w) = (0 < int32 (int k))
      \<and> (k < 2147483648 \<longrightarrow> snd (fetchIntermediateStorages w) = (0 < k))
      \<and> (k < 2147483648 \<and> INT_MIN \<le> ?old \<and> ?old + int k \<le> INT_MAX
           \<longrightarrow> blackboard_get_int (blackboard (fst (fetchIntermediateStorages w)))
                  ''indexed_source_file_count'' 0 = ?old + int k)"
    using spec state len board result small exact by (intro conjI impI) (simp_all only: simp_thms)
  then show ?thesis by (intro exI)
qed

theorem fetchIntermediateStorages_refines_drainSpec_witness:
  "getStorageCount busyWorld \<le> 10
   \<and> snd (fetchIntermediateStorages busyWorld)
   \<and> storageProvider (fst (fetchIntermediateStorages busyWorld))
        = [storageOf ''a'', storageOf ''b'', storageOf ''c'']
   \<and> finishedProcessIds (shm (fst (fetchIntermediateStorages busyWorld))) = []
   \<and> blackboard (fst (fetchIntermediateStorages busyWorld)) ''indexed_source_file_count''
        = Some (IntItem 7)
   \<and> getStorageCount (busyWorld\<lparr>clock := (\<lambda>k. 600 * int k)\<rparr>) \<le> 10
   \<and> snd (fetchIntermediateStorages (busyWorld\<lparr>clock := (\<lambda>k. 600 * int k)\<rparr>))
   \<and> storageProvider (fst (fetchIntermediateStorages (busyWorld\<lparr>clock := (\<lambda>k. 600 * int k)\<rparr>)))
        = [storageOf ''a'']
   \<and> finishedProcessIds (shm (fst (fetchIntermediateStorages
        (busyWorld\<lparr>clock := (\<lambda>k. 600 * int k)\<rparr>)))) = [2, 1]
   \<and> blackboard (fst (fetchIntermediateStorages (busyWorld\<lparr>clock := (\<lambda>k. 600 * int k)\<rparr>)))
        ''indexed_source_file_count'' = Some (IntItem 5)
   \<and> getStorageCount (busyWorld\<lparr>blackboard :=
        [''indexed_source_file_count'' \<mapsto> IntItem 2147483647]\<rparr>) \<le> 10
   \<and> blackboard (fst (fetchIntermediateStorages (busyWorld\<lparr>blackboard :=
        [''indexed_source_file_count'' \<mapsto> IntItem 2147483647]\<rparr>)))
        ''indexed_source_file_count'' = Some (IntItem (- 2147483646))"
proof -
  let ?slow = "busyWorld\<lparr>clock := (\<lambda>k. 600 * int k)\<rparr>"
  let ?full = "busyWorld\<lparr>blackboard := [''indexed_source_file_count'' \<mapsto> IntItem 2147483647]\<rparr>"
  have h: "getStorageCount busyWorld \<le> 10"
    by (simp add: getStorageCount_def busyWorld_def idleWorld_def)
  have spec: "drainSpec (m_interprocessIntermediateStorageManagers busyWorld)
         (\<lambda>i. deltaMS (clock busyWorld (Suc (clockReads busyWorld + i)))
                 (clock busyWorld (clockReads busyWorld)) < 500)
         (finishedProcessIds (shm busyWorld)) (intermediateStorages (shm busyWorld))
         (storageProvider busyWorld)
       = ([], (\<lambda>pid. []), [storageOf ''a'', storageOf ''b'', storageOf ''c''], 3)"
    by (simp add: busyWorld_def idleWorld_def emptySharedMemory_def deltaMS_def fun_eq_iff)
  have h': "getStorageCount ?slow \<le> 10"
    by (simp add: getStorageCount_def busyWorld_def idleWorld_def)
  have spec': "drainSpec (m_interprocessIntermediateStorageManagers ?slow)
         (\<lambda>i. deltaMS (clock ?slow (Suc (clockReads ?slow + i)))
                 (clock ?slow (clockReads ?slow)) < 500)
         (finishedProcessIds (shm ?slow)) (intermediateStorages (shm ?slow))
         (storageProvider ?slow)
       = ([2, 1], (\<lambda>pid. if pid = 1 then [storageOf ''c'']
                  else if pid = 2 then [storageOf ''b''] else []), [storageOf ''a''], 1)"
    by (simp add: busyWorld_def idleWorld_def emptySharedMemory_def deltaMS_def fun_eq_iff)
  have h'': "getStorageCount ?full \<le> 10"
    by (simp add: getStorageCount_def busyWorld_def idleWorld_def)
  have spec'': "drainSpec (m_interprocessIntermediateStorageManagers ?full)
         (\<lambda>i. deltaMS (clock ?full (Suc (clockReads ?full + i)))
                 (clock ?full (clockReads ?full)) < 500)
         (finishedProcessIds (shm ?full)) (intermediateStorages (shm ?full))
         (storageProvider ?full)
       = ([], (\<lambda>pid. []), [storageOf ''a'', storageOf ''b'', storageOf ''c''], 3)"
    by (simp add: busyWorld_def idleWorld_def emptySharedMemory_def deltaMS_def fun_eq_iff)
  have fast: "snd (fetchIntermediateStorages busyWorld)
   \<and> storageProvider (fst (fetchIntermediateStorages busyWorld))
        = [storageOf ''a'', storageOf ''b'', storageOf ''c'']
   \<and> finishedProcessIds (shm (fst (fetchIntermediateStorages busyWorld))) = []
   \<and> blackboard (fst (fetchIntermediateStorages busyWorld)) ''indexed_source_file_count''
        = Some (IntItem 7)"
    using fetchIntermediateStorages_refines_drainSpec [OF h] spec
    by (auto simp: busyWorld_def idleWorld_def blackboard_get_int_def int32_def)
  have slow: "snd (fetchIntermediateStorages ?slow)
   \<and> storageProvider (fst (fetchIntermediateStorages ?slow)) = [storageOf ''a'']
   \<and> finishedProcessIds (shm (fst (fetchIntermediateStorages ?slow))) = [2, 1]
   \<and> blackboard (fst (fetchIntermediateStorages ?slow)) ''indexed_source_file_count''
        = Some (IntItem 5)"
    using fetchIntermediateStorages_refines_drainSpec [OF h'] spec'
    by (auto simp: busyWorld_def idleWorld_def blackboard_get_int_def int32_def)
  have full: "blackboard (fst (fetchIntermediateStorages ?full)) ''indexed_source_file_count''
        = Some (IntItem (- 2147483646))"
    using fetchIntermediateStorages_refines_drainSpec [OF h''] spec''
    by (auto simp: busyWorld_def idleWorld_def blackboard_get_int_def int32_def)
  from h h' h'' fast slow full show ?thesis by blast
qed

subsection \<open>Leaving the task\<close>

lemma fetch_preserves:
  "m_processThreads (fst (fetchIntermediateStorages w)) = m_processThreads w
   \<and> joinedThreads (fst (fetchIntermediateStorages w)) = joinedThreads w
   \<and> m_interprocessIntermediateStorageManagers (fst (fetchIntermediateStorages w))
       = m_interprocessIntermediateStorageManagers w
   \<and> crashedSourceFilePaths (shm (fst (fetchIntermediateStorages w)))
       = crashedSourceFilePaths (shm w)"
proof (cases "getStorageCount w \<le> 10")
  case True
  then show ?thesis by (simp add: fetch_unfold split: prod.splits)
next
  case False
  then show ?thesis by (simp add: fetchIntermediateStorages_def sleep_for_def)
qed

lemma fetchTimes_preserves:
  "m_processThreads (fetchTimes n w) = m_processThreads w
   \<and> joinedThreads (fetchTimes n w) = joinedThreads w
   \<and> m_interprocessIntermediateStorageManagers (fetchTimes n w)
       = m_interprocessIntermediateStorageManagers w
   \<and> crashedSourceFilePaths (shm (fetchTimes n w)) = crashedSourceFilePaths (shm w)"
  by (induction n arbitrary: w) (simp_all add: fetch_preserves)

lemma fetchAll_returns_after:
  assumes "\<forall>i<n. snd (fetchIntermediateStorages (fetchTimes i w))"
    and "\<not> snd (fetchIntermediateStorages (fetchTimes n w))"
  shows "fetchAll w = Some (fetchTimes (Suc n) w)"
  using assms
proof (induction n arbitrary: w)
  case 0
  then show ?case
    by (subst fetchAll.simps) (simp add: case_prod_unfold)
next
  case (Suc n)
  from Suc.prems(1) have first: "snd (fetchIntermediateStorages w)"
    by (auto dest: spec [of _ 0])
  have "\<forall>i<n. snd (fetchIntermediateStorages (fetchTimes i (fst (fetchIntermediateStorages w))))"
    using Suc.prems(1) by (auto dest: spec [of _ "Suc _"])
  moreover have "\<not> snd (fetchIntermediateStorages (fetchTimes n (fst (fetchIntermediateStorages w))))"
    using Suc.prems(2) by simp
  ultimately have "fetchAll (fst (fetchIntermediateStorages w))
      = Some (fetchTimes (Suc n) (fst (fetchIntermediateStorages w)))"
    by (rule Suc.IH)
  with first show ?case
    by (subst fetchAll.simps) (simp add: case_prod_unfold)
qed

lemma fetchAll_Some_times:
  assumes "fetchAll w = Some w'"
  shows "\<exists>n. (\<forall>i<n. snd (fetchIntermediateStorages (fetchTimes i w)))
           \<and> \<not> snd (fetchIntermediateStorages (fetchTimes n w))
           \<and> w' = fetchTimes (Suc n) w"
proof (rule fetchAll.raw_induct
    [where P = "\<lambda>w w'. \<exists>n. (\<forall>i<n. snd (fetchIntermediateStorages (fetchTimes i w)))
           \<and> \<not> snd (fetchIntermediateStorages (fetchTimes n w))
           \<and> w' = fetchTimes (Suc n) w", OF _ assms])
  fix fetchAll' w w'
  assume IH: "\<And>w w'. fetchAll' w = Some w' \<Longrightarrow>
      \<exists>n. (\<forall>i<n. snd (fetchIntermediateStorages (fetchTimes i w)))
           \<and> \<not> snd (fetchIntermediateStorages (fetchTimes n w))
           \<and> w' = fetchTimes (Suc n) w"
    and step: "(let (w1, fetched) = fetchIntermediateStorages w
                in if fetched then fetchAll' w1 else Some w1) = Some w'"
  show "\<exists>n. (\<forall>i<n. snd (fetchIntermediateStorages (fetchTimes i w)))
           \<and> \<not> snd (fetchIntermediateStorages (fetchTimes n w))
           \<and> w' = fetchTimes (Suc n) w"
  proof (cases "snd (fetchIntermediateStorages w)")
    case True
    with step have "fetchAll' (fst (fetchIntermediateStorages w)) = Some w'"
      by (simp add: case_prod_unfold)
    from IH [OF this] obtain n where
      n: "\<forall>i<n. snd (fetchIntermediateStorages (fetchTimes i (fst (fetchIntermediateStorages w))))"
        "\<not> snd (fetchIntermediateStorages (fetchTimes n (fst (fetchIntermediateStorages w))))"
        "w' = fetchTimes (Suc n) (fst (fetchIntermediateStorages w))"
      by blast
    have "\<forall>i<Suc n. snd (fetchIntermediateStorages (fetchTimes i w))"
    proof (intro allI impI)
      fix i assume "i < Suc n"
      then show "snd (fetchIntermediateStorages (fetchTimes i w))"
        using True n(1) by (cases i) auto
    qed
    with n(2,3) show ?thesis
      by (intro exI [of _ "Suc n"]) simp
  next
    case False
    with step have "w' = fst (fetchIntermediateStorages w)"
      by (simp add: case_prod_unfold)
    with False show ?thesis
      by (intro exI [of _ 0]) simp
  qed
qed

lemma drainSpec_drains:
  "drainSpec slots inBudget signal channel sink = (signal', channel', sink', k) \<Longrightarrow>
   (\<forall>pid. set (channel' pid) \<subseteq> set (channel pid))
   \<and> (\<exists>bs. sink' = sink @ bs \<and> set bs \<subseteq> (\<Union>pid\<in>set slots. set (channel pid)))"
proof (induction signal arbitrary: inBudget channel sink signal' channel' sink' k)
  case Nil
  then show ?case by simp
next
  case (Cons slotId signal)
  show ?case
  proof (cases "slotId = 0 \<or> length slots < slotId")
    case True
    with Cons.prems show ?thesis by auto
  next
    case valid: False
    let ?pid = "slots ! (slotId - 1)"
    from valid have "slotId - 1 < length slots" by arith
    then have member: "?pid \<in> set slots" by (rule nth_mem)
    show ?thesis
    proof (cases "channel ?pid")
      case Nil
      with valid Cons.prems show ?thesis by auto
    next
      case (Cons b bs)
      have shrink: "set ((channel(?pid := bs)) pid) \<subseteq> set (channel pid)" for pid
        using Cons by auto
      have b_in: "b \<in> (\<Union>pid\<in>set slots. set (channel pid))"
        using member Cons by (intro UN_I [of ?pid]) simp_all
      show ?thesis
      proof (cases "inBudget 0")
        case True
        obtain sg c s j where rec: "drainSpec slots (\<lambda>i. inBudget (Suc i)) signal
            (channel(?pid := bs)) (sink @ [b]) = (sg, c, s, j)"
          by (metis prod_cases4)
        from Cons.IH [OF rec] obtain bs' where
          sub: "\<forall>pid. set (c pid) \<subseteq> set ((channel(?pid := bs)) pid)"
          and s: "s = (sink @ [b]) @ bs'"
          and bs': "set bs' \<subseteq> (\<Union>pid\<in>set slots. set ((channel(?pid := bs)) pid))"
          by blast
        from rec valid Cons True Cons.prems have res: "channel' = c" "sink' = s"
          by (auto simp: Let_def)
        have "\<forall>pid. set (channel' pid) \<subseteq> set (channel pid)"
          using sub shrink res by blast
        moreover have "sink' = sink @ (b # bs')" using s res by simp
        moreover have "set (b # bs') \<subseteq> (\<Union>pid\<in>set slots. set (channel pid))"
        proof -
          have "(\<Union>pid\<in>set slots. set ((channel(?pid := bs)) pid))
              \<subseteq> (\<Union>pid\<in>set slots. set (channel pid))"
            by (intro UN_mono order_refl shrink)
          with bs' have "set bs' \<subseteq> (\<Union>pid\<in>set slots. set (channel pid))"
            by (rule subset_trans)
          with b_in show ?thesis by simp
        qed
        ultimately show ?thesis by blast
      next
        case False
        from valid Cons False Cons.prems have res: "channel' = channel(?pid := bs)" "sink' = sink @ [b]"
          by (auto simp: Let_def)
        have "\<forall>pid. set (channel' pid) \<subseteq> set (channel pid)"
          using shrink res by blast
        moreover have "set [b] \<subseteq> (\<Union>pid\<in>set slots. set (channel pid))"
          using b_in by simp
        ultimately show ?thesis using res by blast
      qed
    qed
  qed
qed

lemma fetch_drains:
  "(\<forall>pid. set (intermediateStorages (shm (fst (fetchIntermediateStorages w))) pid)
            \<subseteq> set (intermediateStorages (shm w) pid))
   \<and> (\<exists>bs. storageProvider (fst (fetchIntermediateStorages w)) = storageProvider w @ bs
          \<and> set bs \<subseteq> (\<Union>pid\<in>set (m_interprocessIntermediateStorageManagers w).
                          set (intermediateStorages (shm w) pid)))"
proof (cases "getStorageCount w \<le> 10")
  case True
  obtain signal' channel' sink' k where spec:
    "drainSpec (m_interprocessIntermediateStorageManagers w)
         (\<lambda>i. deltaMS (clock w (Suc (clockReads w + i))) (clock w (clockReads w)) < 500)
         (finishedProcessIds (shm w)) (intermediateStorages (shm w)) (storageProvider w)
        = (signal', channel', sink', k)"
    by (metis prod_cases4)
  from drainSpec_drains [OF spec] show ?thesis
    by (simp add: fetch_unfold [OF True] spec)
next
  case False
  then show ?thesis by (simp add: fetchIntermediateStorages_def sleep_for_def)
qed

lemma fetchTimes_drains:
  "(\<forall>pid. set (intermediateStorages (shm (fetchTimes n w)) pid)
            \<subseteq> set (intermediateStorages (shm w) pid))
   \<and> (\<exists>bs. storageProvider (fetchTimes n w) = storageProvider w @ bs
          \<and> set bs \<subseteq> (\<Union>pid\<in>set (m_interprocessIntermediateStorageManagers w).
                          set (intermediateStorages (shm w) pid)))"
proof (induction n arbitrary: w)
  case 0
  show ?case by simp
next
  case (Suc n)
  let ?w1 = "fst (fetchIntermediateStorages w)"
  let ?U = "\<lambda>w. (\<Union>pid\<in>set (m_interprocessIntermediateStorageManagers w).
                          set (intermediateStorages (shm w) pid))"
  from fetch_drains [of w] obtain bs1 where
    sub1: "\<forall>pid. set (intermediateStorages (shm ?w1) pid) \<subseteq> set (intermediateStorages (shm w) pid)"
    and sp1: "storageProvider ?w1 = storageProvider w @ bs1" and bs1: "set bs1 \<subseteq> ?U w"
    by blast
  from Suc.IH [of ?w1] obtain bs2 where
    sub2: "\<forall>pid. set (intermediateStorages (shm (fetchTimes n ?w1)) pid)
             \<subseteq> set (intermediateStorages (shm ?w1) pid)"
    and sp2: "storageProvider (fetchTimes n ?w1) = storageProvider ?w1 @ bs2"
    and bs2: "set bs2 \<subseteq> ?U ?w1"
    by blast
  have "?U ?w1 \<subseteq> ?U w"
    using sub1 by (auto simp: fetch_preserves)
  with bs1 bs2 have "set (bs1 @ bs2) \<subseteq> ?U w" by auto
  moreover have "storageProvider (fetchTimes (Suc n) w) = storageProvider w @ (bs1 @ bs2)"
    using sp1 sp2 by simp
  moreover have "\<forall>pid. set (intermediateStorages (shm (fetchTimes (Suc n) w)) pid)
            \<subseteq> set (intermediateStorages (shm w) pid)"
    using sub1 sub2 by auto
  ultimately show ?case by blast
qed

lemma foldl_addError:
  "foldl (\<lambda>is path. addError (f path) is) s paths = s\<lparr>errors := errors s @ map f paths\<rparr>"
  by (induction paths arbitrary: s) (simp_all add: addError_def)

lemma reportCrashedFiles_unfold:
  "reportCrashedFiles w =
     (if crashedSourceFilePaths (shm w) \<noteq> [] then
        w\<lparr>storageProvider := storageProvider w @
             [\<lparr>storageData = [], errors = map crashedFileError (crashedSourceFilePaths (shm w))\<rparr>]\<rparr>
      else w)"
  by (simp add: reportCrashedFiles_def getCrashedSourceFilePaths_def foldl_addError
      newIntermediateStorage_def StorageProvider_insert_def)

lemma foldl_join:
  "foldl (\<lambda>w' processThread. w'\<lparr>joinedThreads := joinedThreads w' @ [processThread]\<rparr>) w ts
     = w\<lparr>joinedThreads := joinedThreads w @ ts\<rparr>"
  by (induction ts arbitrary: w) simp_all

lemma joinThreads_unfold:
  "joinThreads w = w\<lparr>joinedThreads := joinedThreads w @ m_processThreads w, m_processThreads := []\<rparr>"
  by (simp add: joinThreads_def foldl_join)

text \<open>
  The drain loop of \<^verbatim>\<open>doExit\<close> ends, and with it \<^verbatim>\<open>doExit\<close> returns, when
  the bundles held by the storage provider and the ids waiting in the finished-signal
  are at most 10 together: the provider then never exceeds its threshold.
\<close>

lemma fetchAll_returns:
  "length (storageProvider w) + length (finishedProcessIds (shm w)) \<le> 10 \<Longrightarrow>
   \<exists>w'. fetchAll w = Some w'"
proof (induction "length (finishedProcessIds (shm w))" arbitrary: w rule: less_induct)
  case less
  then have low: "getStorageCount w \<le> 10" by (simp add: getStorageCount_def)
  obtain signal' channel' sink' k where spec:
    "drainSpec (m_interprocessIntermediateStorageManagers w)
         (\<lambda>i. deltaMS (clock w (Suc (clockReads w + i))) (clock w (clockReads w)) < 500)
         (finishedProcessIds (shm w)) (intermediateStorages (shm w)) (storageProvider w)
        = (signal', channel', sink', k)"
    by (metis prod_cases4)
  let ?w1 = "fst (fetchIntermediateStorages w)"
  from drainSpec_counts [OF spec] have counts: "length sink' = length (storageProvider w) + k"
    "length signal' + k \<le> length (finishedProcessIds (shm w))" by simp_all
  from counts less.prems have "k < 2147483648" by simp
  then have small: "int32 (int k) = int k" by (rule int32_of_small)
  have w1: "storageProvider ?w1 = sink'" "finishedProcessIds (shm ?w1) = signal'"
    "snd (fetchIntermediateStorages w) = (0 < k)"
    by (simp_all add: fetch_unfold [OF low] spec small)
  show ?case
  proof (cases "0 < k")
    case True
    with counts w1 less.prems have "length (finishedProcessIds (shm ?w1)) < length (finishedProcessIds (shm w))"
      "length (storageProvider ?w1) + length (finishedProcessIds (shm ?w1)) \<le> 10"
      by simp_all
    from less.hyps [OF this] obtain w' where "fetchAll ?w1 = Some w'" ..
    with True w1 show ?thesis
      by (subst fetchAll.simps) (simp add: case_prod_unfold)
  next
    case False
    with w1 show ?thesis
      by (subst fetchAll.simps) (simp add: case_prod_unfold)
  qed
qed

lemma doExit_returns:
  "length (storageProvider w) + length (finishedProcessIds (shm w)) \<le> 10 \<Longrightarrow>
   \<exists>w'. doExit w = Some w'"
  using fetchAll_returns [of "joinThreads w"]
  by (auto simp: doExit_def joinThreads_unfold Let_def split: option.splits)

text \<open>
  C7: after \<^verbatim>\<open>doExit\<close> has completed, every launched worker thread has been
  joined and no handle is left; the drain step has been called again and again until
  it returned false (\<open>n\<close> calls returned true, call \<open>n + 1\<close> returned false); if
  \<open>M \<ge> 1\<close> crashed source paths were recorded, the storage provider has received,
  after the drained bundles, exactly one more bundle, which holds exactly \<open>M\<close> error
  records, the \<open>i\<close>-th of them marked fatal and tagged with the \<open>i\<close>-th crashed
  path; and the blackboard key \<^verbatim>\<open>indexer_count\<close> is 0.
\<close>

theorem doExit_joins_drains_reports_crashes:
  assumes "doExit w = Some w'"
  shows "m_processThreads w' = []
     \<and> joinedThreads w' = joinedThreads w @ m_processThreads w
     \<and> (\<exists>n. (\<forall>i<n. snd (fetchIntermediateStorages (fetchTimes i (joinThreads w))))
            \<and> \<not> snd (fetchIntermediateStorages (fetchTimes n (joinThreads w)))
            \<and> (crashedSourceFilePaths (shm w) \<noteq> [] \<longrightarrow>
                 (\<exists>b. storageProvider w'
                        = storageProvider (fetchTimes (Suc n) (joinThreads w)) @ [b]
                     \<and> length (errors b) = length (crashedSourceFilePaths (shm w))
                     \<and> (\<forall>i<length (crashedSourceFilePaths (shm w)).
                           fatal (errors b ! i)
                           \<and> filePath (errors b ! i) = crashedSourceFilePaths (shm w) ! i))))
     \<and> blackboard w' ''indexer_count'' = Some (IntItem 0)"
proof -
  from assms obtain w1 where all: "fetchAll (joinThreads w) = Some w1"
    and w': "w' = (reportCrashedFiles w1)
        \<lparr>blackboard := blackboard_set (blackboard (reportCrashedFiles w1)) ''indexer_count'' (IntItem 0)\<rparr>"
    by (auto simp: doExit_def Let_def split: option.splits)
  from fetchAll_Some_times [OF all] obtain n where
    n: "\<forall>i<n. snd (fetchIntermediateStorages (fetchTimes i (joinThreads w)))"
      "\<not> snd (fetchIntermediateStorages (fetchTimes n (joinThreads w)))"
      and w1: "w1 = fetchTimes (Suc n) (joinThreads w)"
    by blast
  have keep: "m_processThreads w1 = []" "joinedThreads w1 = joinedThreads w @ m_processThreads w"
    "crashedSourceFilePaths (shm w1) = crashedSourceFilePaths (shm w)"
    unfolding w1 using fetchTimes_preserves [of "Suc n" "joinThreads w"]
    by (simp_all add: joinThreads_unfold)
  have threads: "m_processThreads w' = []" "joinedThreads w' = joinedThreads w @ m_processThreads w"
    using keep by (simp_all add: w' reportCrashedFiles_unfold)
  have count: "blackboard w' ''indexer_count'' = Some (IntItem 0)"
    by (simp add: w' blackboard_set_def)
  have report: "\<exists>b. storageProvider w' = storageProvider (fetchTimes (Suc n) (joinThreads w)) @ [b]
                     \<and> length (errors b) = length (crashedSourceFilePaths (shm w))
                     \<and> (\<forall>i<length (crashedSourceFilePaths (shm w)).
                           fatal (errors b ! i)
                           \<and> filePath (errors b ! i) = crashedSourceFilePaths (shm w) ! i)"
    if "crashedSourceFilePaths (shm w) \<noteq> []"
    using that keep(3)
    by (intro exI [of _ "\<lparr>storageData = [], errors = map crashedFileError (crashedSourceFilePaths (shm w))\<rparr>"])
      (simp add: w' reportCrashedFiles_unfold w1 crashedFileError_def del: fetchTimes.simps)
  from threads count n report show ?thesis by blast
qed

lemma fetch_exitWorld_first:
  "fetchIntermediateStorages (joinThreads exitWorld) = (drainedWorld, True)"
proof -
  have low: "getStorageCount (joinThreads exitWorld) \<le> 10"
    by (simp add: getStorageCount_def joinThreads_unfold exitWorld_def busyWorld_def idleWorld_def)
  show ?thesis
    by (subst fetch_unfold [OF low])
      (simp add: joinThreads_unfold drainedWorld_def exitWorld_def busyWorld_def idleWorld_def
        emptySharedMemory_def deltaMS_def blackboard_set_def blackboard_get_int_def int32_def
        fun_eq_iff)
qed

lemma fetch_exitWorld_second:
  "fetchIntermediateStorages drainedWorld = (drainedWorld\<lparr>clockReads := 5\<rparr>, False)"
proof -
  have low: "getStorageCount drainedWorld \<le> 10"
    by (simp add: getStorageCount_def drainedWorld_def)
  show ?thesis
    by (subst fetch_unfold [OF low]) (simp add: drainedWorld_def int32_zero)
qed

lemma fetchAll_exitWorld: "fetchAll (joinThreads exitWorld) = Some (drainedWorld\<lparr>clockReads := 5\<rparr>)"
  by (subst fetchAll.simps, simp only: fetch_exitWorld_first split_conv Let_def if_True,
      subst fetchAll.simps, simp only: fetch_exitWorld_second split_conv Let_def if_False)

theorem doExit_joins_drains_reports_crashes_witness:
  "doExit exitWorld = Some exitedWorld
   \<and> m_processThreads exitWorld = [RunIndexerThread 1, RunIndexerThread 2]
   \<and> crashedSourceFilePaths (shm exitWorld) = [''c.cpp'', ''d.cpp'']
   \<and> m_processThreads exitedWorld = []
   \<and> joinedThreads exitedWorld = [RunIndexerThread 1, RunIndexerThread 2]
   \<and> blackboard exitedWorld ''indexer_count'' = Some (IntItem 0)
   \<and> map (map filePath \<circ> errors) (storageProvider exitedWorld) = [[], [], [], [''c.cpp'', ''d.cpp'']]"
proof -
  have ran: "doExit exitWorld = Some exitedWorld"
    by (simp only: doExit_def fetchAll_exitWorld option.case Let_def)
      (simp add: reportCrashedFiles_unfold blackboard_set_def
        exitedWorld_def drainedWorld_def exitWorld_def busyWorld_def fun_eq_iff)
  have "map (map filePath \<circ> errors) (storageProvider exitedWorld) = [[], [], [], [''c.cpp'', ''d.cpp'']]"
    by (simp add: exitedWorld_def storageOf_def crashedFileError_def)
  moreover have "m_processThreads exitWorld = [RunIndexerThread 1, RunIndexerThread 2]"
    "crashedSourceFilePaths (shm exitWorld) = [''c.cpp'', ''d.cpp'']"
    "joinedThreads exitWorld = []"
    by (simp_all add: exitWorld_def busyWorld_def idleWorld_def)
  ultimately show ?thesis
    using ran doExit_joins_drains_reports_crashes [OF ran] by simp
qed

text \<open>
  C10: if the list of crashed paths is empty when \<^verbatim>\<open>doExit\<close> runs, the
  crash-reporting step changes nothing, so it inserts nothing into the storage
  provider: after \<^verbatim>\<open>doExit\<close> the provider holds what it held after the drain
  loop, that is what it held before plus bundles that were waiting in the result
  channels of the worker slots.
\<close>

theorem doExit_without_crashes_inserts_no_report:
  assumes "crashedSourceFilePaths (shm w) = []" and "doExit w = Some w'"
  shows "\<exists>w1. fetchAll (joinThreads w) = Some w1
          \<and> reportCrashedFiles w1 = w1
          \<and> storageProvider w' = storageProvider w1
          \<and> (\<exists>bs. storageProvider w' = storageProvider w @ bs
                 \<and> set bs \<subseteq> (\<Union>pid\<in>set (m_interprocessIntermediateStorageManagers w).
                                 set (intermediateStorages (shm w) pid)))"
proof -
  from assms(2) obtain w1 where all: "fetchAll (joinThreads w) = Some w1"
    and w': "w' = (reportCrashedFiles w1)
        \<lparr>blackboard := blackboard_set (blackboard (reportCrashedFiles w1)) ''indexer_count'' (IntItem 0)\<rparr>"
    by (auto simp: doExit_def Let_def split: option.splits)
  from fetchAll_Some_times [OF all] obtain n where w1: "w1 = fetchTimes (Suc n) (joinThreads w)"
    by blast
  have "crashedSourceFilePaths (shm w1) = []"
    unfolding w1 using fetchTimes_preserves [of "Suc n" "joinThreads w"] assms(1)
    by (simp add: joinThreads_unfold)
  then have same: "reportCrashedFiles w1 = w1"
    by (simp add: reportCrashedFiles_unfold)
  then have sp: "storageProvider w' = storageProvider w1" by (simp add: w')
  from fetchTimes_drains [of "Suc n" "joinThreads w"]
  have "\<exists>bs. storageProvider w1 = storageProvider w @ bs
                 \<and> set bs \<subseteq> (\<Union>pid\<in>set (m_interprocessIntermediateStorageManagers w).
                                 set (intermediateStorages (shm w) pid))"
    unfolding w1 by (simp add: joinThreads_unfold)
  with all same sp show ?thesis by auto
qed

lemma fetchAll_two_calls:
  "fetchIntermediateStorages w = (w1, True) \<Longrightarrow> fetchIntermediateStorages w1 = (w2, False) \<Longrightarrow>
   fetchAll w = Some w2"
  by (subst fetchAll.simps, simp, subst fetchAll.simps, simp)

theorem doExit_without_crashes_inserts_no_report_witness:
  "crashedSourceFilePaths (shm quietWorld) = []
   \<and> doExit quietWorld = Some quietExitedWorld
   \<and> storageProvider quietWorld = []
   \<and> storageProvider quietExitedWorld = [storageOf ''a'', storageOf ''b'', storageOf ''c'']"
proof -
  let ?w1 = "quietDrainedWorld\<lparr>clockReads := 4\<rparr>"
  have h1: "crashedSourceFilePaths (shm quietWorld) = []"
    by (simp add: quietWorld_def)
  have low1: "getStorageCount (joinThreads quietWorld) \<le> 10"
    by (simp add: getStorageCount_def joinThreads_unfold quietWorld_def exitWorld_def
        busyWorld_def idleWorld_def)
  have first: "fetchIntermediateStorages (joinThreads quietWorld) = (?w1, True)"
    by (subst fetch_unfold [OF low1])
      (simp add: joinThreads_unfold quietWorld_def quietDrainedWorld_def drainedWorld_def
        exitWorld_def busyWorld_def idleWorld_def emptySharedMemory_def deltaMS_def
        blackboard_set_def blackboard_get_int_def int32_def fun_eq_iff)
  have low2: "getStorageCount ?w1 \<le> 10"
    by (simp add: getStorageCount_def quietDrainedWorld_def drainedWorld_def)
  have second: "fetchIntermediateStorages ?w1 = (quietDrainedWorld, False)"
    by (subst fetch_unfold [OF low2])
      (simp add: quietDrainedWorld_def drainedWorld_def int32_zero)
  have all: "fetchAll (joinThreads quietWorld) = Some quietDrainedWorld"
    using first second by (rule fetchAll_two_calls)
  have h2: "doExit quietWorld = Some quietExitedWorld"
    by (simp only: doExit_def all option.case Let_def)
      (simp add: reportCrashedFiles_unfold blackboard_set_def quietExitedWorld_def
        quietDrainedWorld_def drainedWorld_def fun_eq_iff)
  have "storageProvider quietExitedWorld = [storageOf ''a'', storageOf ''b'', storageOf ''c'']"
    "storageProvider quietWorld = []"
    by (simp_all add: quietExitedWorld_def quietDrainedWorld_def drainedWorld_def
        quietWorld_def exitWorld_def busyWorld_def idleWorld_def)
  with h1 h2 doExit_without_crashes_inserts_no_report [OF h1 h2] show ?thesis by simp
qed

end
